theory Spec2Isabelle
  imports Main "HOL-Library.Sublist" "HOL-Library.Multiset"
begin

section \<open>Go strings and the standard-library string functions the utilities call\<close>

text \<open>
  A Go \<^verbatim>\<open>string\<close> is a sequence of bytes; \<^verbatim>\<open>len\<close> and indexing count bytes.
  It is modelled as a \<^typ>\<open>string\<close> (a list of 8-bit characters).  A run-time panic of
  the Go program is a value of \<open>go_panic\<close>, returned on the left of a sum.
\<close>

datatype go_panic =
    IndexOutOfRange int nat   \<comment> \<open>index, length\<close>
  | NilDereference
  | PanicMsg string
  | ReflectPanic string

definition backslash :: char where
  "backslash = CHR 0x5C"

text \<open>
  \<^verbatim>\<open>strings.Index(s, sep)\<close>: the byte offset of the first instance of \<open>sep\<close> in
  \<open>s\<close>, or \<open>None\<close> (Go returns \<open>-1\<close>).
\<close>

fun strings_Index :: "string \<Rightarrow> string \<Rightarrow> nat option" where
  "strings_Index [] sep = (if sep = [] then Some 0 else None)"
| "strings_Index (c # cs) sep =
     (if prefix sep (c # cs) then Some 0 else map_option Suc (strings_Index cs sep))"

text \<open>
  \<^verbatim>\<open>utf8.DecodeRuneInString\<close>, the width it reports: the number of bytes of the first
  UTF-8 sequence of \<open>s\<close>; an invalid or truncated sequence has width 1, the empty string
  width 0.  \<open>lead_byte\<close> is the library's table of lead bytes: the width of the sequence
  and the accepted range of its second byte.
\<close>

definition lead_byte :: "nat \<Rightarrow> (nat \<times> nat \<times> nat) option" where
  "lead_byte b =
     (if 0xC2 \<le> b \<and> b \<le> 0xDF then Some (2, 0x80, 0xBF)
      else if b = 0xE0 then Some (3, 0xA0, 0xBF)
      else if b = 0xED then Some (3, 0x80, 0x9F)
      else if 0xE1 \<le> b \<and> b \<le> 0xEF then Some (3, 0x80, 0xBF)
      else if b = 0xF0 then Some (4, 0x90, 0xBF)
      else if 0xF1 \<le> b \<and> b \<le> 0xF3 then Some (4, 0x80, 0xBF)
      else if b = 0xF4 then Some (4, 0x80, 0x8F)
      else None)"

definition continuation :: "char \<Rightarrow> bool" where
  "continuation c = (0x80 \<le> (of_char c :: nat) \<and> (of_char c :: nat) \<le> 0xBF)"

definition rune_width :: "string \<Rightarrow> nat" where
  "rune_width s =
     (case s of
        [] \<Rightarrow> 0
      | c # cs \<Rightarrow>
          (case lead_byte (of_char c) of
             None \<Rightarrow> 1
           | Some (sz, lo, hi) \<Rightarrow>
               if length s < sz then 1
               else if (of_char (s ! 1) :: nat) < lo \<or> hi < (of_char (s ! 1) :: nat) then 1
               else if sz \<le> 2 then 2
               else if \<not> continuation (s ! 2) then 1
               else if sz \<le> 3 then 3
               else if \<not> continuation (s ! 3) then 1
               else 4))"

lemma lead_byte_size: "lead_byte b = Some (sz, lo, hi) \<Longrightarrow> 2 \<le> sz \<and> sz \<le> 4"
  by (auto simp: lead_byte_def split: if_splits)

lemma rune_width_pos: "s \<noteq> [] \<Longrightarrow> 0 < rune_width s"
  by (auto simp: rune_width_def split: list.splits option.splits)

lemma rune_width_le: "rune_width s \<le> length s"
proof (cases s)
  case Nil
  then show ?thesis by (simp add: rune_width_def)
next
  case (Cons c cs)
  show ?thesis
  proof (cases "lead_byte (of_char c)")
    case None
    with Cons show ?thesis by (simp add: rune_width_def)
  next
    case (Some t)
    obtain sz lo hi where t: "t = (sz, lo, hi)" by (cases t)
    from Some t have "2 \<le> sz \<and> sz \<le> 4" by (auto dest: lead_byte_size)
    with Cons Some t show ?thesis
      by (cases "length s < sz") (auto simp: rune_width_def)
  qed
qed

text \<open>
  \<^verbatim>\<open>strings.Split(s, "")\<close> explodes \<open>s\<close> into its UTF-8 sequences, one string each
  (invalid bytes are sliced one by one); the empty string explodes into the empty slice.
\<close>

function explode :: "string \<Rightarrow> string list" where
  "explode s =
     (if s = [] then [] else take (rune_width s) s # explode (drop (rune_width s) s))"
  by pat_completeness auto
termination
  by (relation "measure length") (auto simp: rune_width_pos)

declare explode.simps [simp del]

text \<open>
  \<^verbatim>\<open>strings.Split(s, sep)\<close> for a non-empty separator: cut at every instance of
  \<open>sep\<close>, left to right, the instances not overlapping; a string without \<open>sep\<close> is one
  segment, so the result is never empty.
\<close>

function split_sep :: "string \<Rightarrow> string \<Rightarrow> string list" where
  "split_sep s sep =
     (case strings_Index s sep of
        None \<Rightarrow> [s]
      | Some m \<Rightarrow>
          if sep = [] then [s]
          else take m s # split_sep (drop (m + length sep) s) sep)"
  by pat_completeness auto

lemma Index_bound: "strings_Index s sep = Some m \<Longrightarrow> m + length sep \<le> length s"
  by (induction s arbitrary: m) (auto split: if_splits dest: prefix_length_le)

termination split_sep
proof (relation "measure (\<lambda>(s, sep). length s)", goal_cases)
  case 1
  show ?case by simp
next
  case (2 s sep m)
  then have "m + length sep \<le> length s" and "0 < length sep"
    by (auto dest: Index_bound)
  then have "length s - (m + length sep) < length s" by arith
  then show ?case by simp
qed

declare split_sep.simps [simp del]

definition Split :: "string \<Rightarrow> string \<Rightarrow> string list" where
  "Split s sep = (if sep = [] then explode s else split_sep s sep)"

text \<open>\<^verbatim>\<open>strings.Join(elems, sep)\<close>.\<close>

fun Join :: "string list \<Rightarrow> string \<Rightarrow> string" where
  "Join [] sep = []"
| "Join [x] sep = x"
| "Join (x # y # ys) sep = x @ sep @ Join (y # ys) sep"

text \<open>
  \<^verbatim>\<open>strings.ReplaceAll(s, old, new)\<close> for a non-empty \<open>old\<close>: every non-overlapping
  instance of \<open>old\<close>, left to right, becomes \<open>new\<close>.  (The utilities only call it with
  the one-byte \<open>old\<close> \<^verbatim>\<open>"\\"\<close>; for an empty \<open>old\<close> Go inserts \<open>new\<close> around every
  UTF-8 sequence, which \<open>Join (explode s)\<close> renders here.)
\<close>

definition ReplaceAll :: "string \<Rightarrow> string \<Rightarrow> string \<Rightarrow> string" where
  "ReplaceAll s old new =
     (if old = [] then new @ concat (map (\<lambda>r. r @ new) (explode s))
      else Join (split_sep s old) new)"

section \<open>Path utilities (package utils)\<close>

text \<open>
  \<^verbatim>\<open>
  func ReplaceWindowsDriveWithLinuxPath(path string) string {
      if len(path) > 1 && path[1] == ':' {
          path = strings.ReplaceAll(path, "\\", "/")
          return path[2:]
      }
      return strings.ReplaceAll(path, "\\", "/")
  }\<close>
  The slice \<^verbatim>\<open>path[2:]\<close> panics when the string is shorter than two bytes; the model
  keeps that branch.
\<close>

definition slice_from :: "nat \<Rightarrow> string \<Rightarrow> go_panic + string" where
  "slice_from n s =
     (if n \<le> length s then Inr (drop n s) else Inl (IndexOutOfRange (int n) (length s)))"

definition ReplaceWindowsDriveWithLinuxPath :: "string \<Rightarrow> go_panic + string" where
  "ReplaceWindowsDriveWithLinuxPath path =
     (if length path > 1 \<and> path ! 1 = CHR '':''
      then slice_from 2 (ReplaceAll path [backslash] ''/'')
      else Inr (ReplaceAll path [backslash] ''/''))"

text \<open>
  \<^verbatim>\<open>
  func CheckPathOverlap(pathA, pathB, sep string) string {
      a := strings.Split(pathA, sep)
      b := strings.Split(pathB, sep)
      if a[len(a)-1] == b[0] {
          b = b[1:]
      }
      return strings.Join(append(a, b...), sep)
  }\<close>
  \<^verbatim>\<open>a[len(a)-1]\<close> and \<^verbatim>\<open>b[0]\<close> panic on an empty slice, the left operand first.
\<close>

definition CheckPathOverlap :: "string \<Rightarrow> string \<Rightarrow> string \<Rightarrow> go_panic + string" where
  "CheckPathOverlap pathA pathB sep =
     (let a = Split pathA sep;
          b = Split pathB sep
      in if a = [] then Inl (IndexOutOfRange (-1) 0)
         else if b = [] then Inl (IndexOutOfRange 0 0)
         else Inr (Join (a @ (if last a = hd b then tl b else b)) sep))"

section \<open>YAML nodes, node references and Go errors\<close>

text \<open>
  The YAML library's node (\<^verbatim>\<open>yaml.Node\<close>): a kind, a tag, a scalar value, a line and a
  column, and the ordered children.  A \<^verbatim>\<open>*yaml.Node\<close> that may be \<^verbatim>\<open>nil\<close> is a
  \<open>yaml_node option\<close>.
\<close>

datatype yaml_kind = DocumentNode | SequenceNode | MappingNode | ScalarNode | AliasNode

datatype yaml_node =
  YNode (yKind: yaml_kind) (yTag: string) (yValue: string) (yLine: int) (yColumn: int)
        (yContent: "yaml_node list")

text \<open>
  A Go \<^verbatim>\<open>error\<close> value that is not \<^verbatim>\<open>nil\<close>.  \<^verbatim>\<open>errors.Join\<close> returns \<^verbatim>\<open>nil\<close> when it
  is given no error, and otherwise one error wrapping them all.
\<close>

datatype go_error = ErrorMsg string | Joined "go_error list"

definition errors_Join :: "go_error list \<Rightarrow> go_error option" where
  "errors_Join errs = (if errs = [] then None else Some (Joined errs))"

text \<open>
  \<^verbatim>\<open>low.NodeReference[T]\<close> and \<^verbatim>\<open>low.ValueReference[T]\<close>.  A field of a document that
  holds the zero reference (never assigned) is \<open>None\<close> in the document records below.
\<close>

record 'v NodeReference =
  nrValue :: 'v
  nrKeyNode :: "yaml_node option"
  nrValueNode :: "yaml_node option"

record 'v ValueReference =
  vrValue :: 'v
  vrValueNode :: "yaml_node option"

section \<open>Creating the low-level document (packages low/v3 and low/3.0)\<close>

text \<open>
  \<^verbatim>\<open>datamodel.SpecInfo\<close> and \<^verbatim>\<open>datamodel.DocumentConfiguration\<close>, the fields the two
  \<^verbatim>\<open>create_document.go\<close> files read (the logger is left out).  Values of types that
  are declared outside the sources at hand (built low objects, the index, the rolodex,
  file systems, the URL handler) are elements of an uninterpreted type \<open>'a\<close>.
\<close>

record SpecInfo =
  RootNode :: "yaml_node option"
  infoVersion :: string

record 'a DocumentConfiguration =
  BaseURL :: "string option"
  RemoteURLHandler :: "'a option"
  BasePath :: string
  FileFilter :: "string list"
  RemoteFS :: "'a option"
  LocalFS :: "'a option"
  IgnorePolymorphicCircularReferences :: bool
  IgnoreArrayCircularReferences :: bool
  SkipCircularReferenceCheck :: bool

record SpecIndexConfig =
  cfgBaseURL :: "string option"
  cfgBasePath :: string
  cfgAllowRemoteLookup :: bool
  cfgAllowFileLookup :: bool
  cfgAvoidCircularReferenceCheck :: bool
  cfgIgnorePolymorphicCircularReferences :: bool
  cfgIgnoreArrayCircularReferences :: bool
  cfgSpecInfo :: "SpecInfo option"

record 'a Document =
  Version :: "string NodeReference"
  Info :: "'a NodeReference option"
  JsonSchemaDialect :: "string NodeReference option"
  Webhooks :: "'a NodeReference option"
  Servers :: "'a ValueReference list NodeReference option"
  Paths :: "'a NodeReference option"
  Components :: "'a NodeReference option"
  Security :: "'a NodeReference option"
  Tags :: "'a ValueReference list NodeReference option"
  ExternalDocs :: "'a NodeReference option"
  Extensions :: "'a option"
  Index :: "'a option"
  Rolodex :: "'a option"

record 'a Document_30 =
  Version_30 :: "string ValueReference"
  Info_30 :: "'a NodeReference option"
  Servers_30 :: "'a ValueReference list NodeReference option"
  Paths_30 :: "'a NodeReference option"
  Components_30 :: "'a NodeReference option"
  Security_30 :: "'a NodeReference option"
  Tags_30 :: "'a ValueReference list NodeReference option"
  ExternalDocs_30 :: "'a NodeReference option"
  Extensions_30 :: "'a option"
  Index_30 :: "'a option"

text \<open>
  The functions of this repository that \<^verbatim>\<open>create_document.go\<close> calls and that are not
  among the sources at hand (packages \<^verbatim>\<open>utils\<close>, \<^verbatim>\<open>low\<close>, \<^verbatim>\<open>base\<close>, \<^verbatim>\<open>index\<close>,
  \<^verbatim>\<open>resolver\<close>), and the two library calls that touch the file system, are parameters
  of the model: one record of functions.  Every theorem below holds for every such
  record.  A \<^verbatim>\<open>Build\<close> method that returns an error is a function into
  \<open>go_error + 'a\<close>; where the caller discards the error (\<^verbatim>\<open>_ = x.Build(...)\<close>) the
  function returns the built object only.
\<close>

record 'a deps =
  FindKeyNodeFull ::
    "string \<Rightarrow> yaml_node list \<Rightarrow> yaml_node option \<times> yaml_node option \<times> yaml_node option"
  FindKeyNodeFullTop ::
    "string \<Rightarrow> yaml_node list \<Rightarrow> yaml_node option \<times> yaml_node option \<times> yaml_node option"
  IsNodeArray :: "yaml_node \<Rightarrow> bool"
  IsNodeMap :: "yaml_node \<Rightarrow> bool"
  ExtractExtensions :: "yaml_node \<Rightarrow> 'a"
  ExtractArray ::
    "string \<Rightarrow> yaml_node \<Rightarrow> 'a \<Rightarrow> go_error + ('a \<times> yaml_node option \<times> yaml_node option)"
  ExtractObject :: "string \<Rightarrow> yaml_node \<Rightarrow> 'a \<Rightarrow> go_error + 'a NodeReference option"
  ExtractMap ::
    "string \<Rightarrow> yaml_node \<Rightarrow> 'a \<Rightarrow> go_error + ('a option \<times> yaml_node option \<times> yaml_node option)"
  BuildInfo :: "yaml_node option \<Rightarrow> yaml_node \<Rightarrow> 'a \<Rightarrow> 'a"
  BuildServer :: "yaml_node option \<Rightarrow> yaml_node \<Rightarrow> 'a \<Rightarrow> 'a"
  BuildTag :: "yaml_node option \<Rightarrow> yaml_node \<Rightarrow> 'a \<Rightarrow> go_error + 'a"
  BuildComponents :: "yaml_node \<Rightarrow> 'a \<Rightarrow> go_error + 'a"
  BuildPaths :: "yaml_node option \<Rightarrow> yaml_node \<Rightarrow> 'a \<Rightarrow> go_error + 'a"
  CreateClosedAPIIndexConfig :: SpecIndexConfig
  NewRolodex :: "SpecIndexConfig \<Rightarrow> 'a"
  SetRootNode :: "yaml_node \<Rightarrow> 'a \<Rightarrow> 'a"
  AddLocalFS :: "string \<Rightarrow> 'a \<Rightarrow> 'a \<Rightarrow> 'a"
  AddRemoteFS :: "string \<Rightarrow> 'a \<Rightarrow> 'a \<Rightarrow> 'a"
  IndexTheRolodex :: "SpecIndexConfig \<Rightarrow> 'a \<Rightarrow> 'a"
  CheckForCircularReferences :: "'a \<Rightarrow> 'a"
  GetCaughtErrors :: "'a \<Rightarrow> go_error list"
  GetRootIndex :: "'a \<Rightarrow> 'a"
  filepath_Abs :: "string \<Rightarrow> go_error + string"
  NewLocalFSWithConfig :: "string \<Rightarrow> string list \<Rightarrow> go_error + 'a"
  NewRemoteFSWithConfig :: "SpecIndexConfig \<Rightarrow> go_error + 'a"
  SetRemoteHandlerFunc :: "'a \<Rightarrow> 'a \<Rightarrow> 'a"
  ExtractObject_30 :: "string \<Rightarrow> yaml_node option \<Rightarrow> 'a \<Rightarrow> go_error + 'a NodeReference option"
  BuildInfo_30 :: "yaml_node \<Rightarrow> 'a \<Rightarrow> 'a"
  BuildServer_30 :: "yaml_node \<Rightarrow> 'a \<Rightarrow> 'a"
  BuildTag_30 :: "yaml_node \<Rightarrow> 'a \<Rightarrow> go_error + 'a"
  BuildComponents_30 :: "yaml_node \<Rightarrow> 'a \<Rightarrow> go_error + 'a"
  BuildPaths_30 :: "yaml_node \<Rightarrow> 'a \<Rightarrow> go_error + 'a"
  NewSpecIndex :: "yaml_node option \<Rightarrow> 'a"
  ResolverCheckForCircularReferences :: "'a \<Rightarrow> 'a"

text \<open>
  Modelled from the spec: the label constants (\<^verbatim>\<open>OpenAPILabel\<close>, \<^verbatim>\<open>ServersLabel\<close>, ...)
  are declared outside the sources at hand; the spec names the keys: \<open>openapi\<close>, and the
  top-level sections \<open>info\<close>, \<open>servers\<close>, \<open>tags\<close>, \<open>components\<close>, \<open>security\<close>,
  \<open>externalDocs\<close>, \<open>paths\<close>, \<open>webhooks\<close> and \<open>jsonSchemaDialect\<close>.
\<close>

definition OpenAPILabel :: string where "OpenAPILabel = ''openapi''"

definition InfoLabel :: string where "InfoLabel = ''info''"

definition ServersLabel :: string where "ServersLabel = ''servers''"

definition TagsLabel :: string where "TagsLabel = ''tags''"

definition ComponentsLabel :: string where "ComponentsLabel = ''components''"

definition SecurityLabel :: string where "SecurityLabel = ''security''"

definition ExternalDocsLabel :: string where "ExternalDocsLabel = ''externalDocs''"

definition PathsLabel :: string where "PathsLabel = ''paths''"

definition WebhooksLabel :: string where "WebhooksLabel = ''webhooks''"

definition JSONSchemaDialectLabel :: string where "JSONSchemaDialectLabel = ''jsonSchemaDialect''"

text \<open>
  \<^verbatim>\<open>info.RootNode.Content\<close> and \<^verbatim>\<open>info.RootNode.Content[0]\<close>: a \<^verbatim>\<open>nil\<close> root node
  and a root node without children panic.
\<close>

definition root_content :: "SpecInfo \<Rightarrow> go_panic + yaml_node list" where
  "root_content info =
     (case RootNode info of None \<Rightarrow> Inl NilDereference | Some root \<Rightarrow> Inr (yContent root))"

definition root_content0 :: "SpecInfo \<Rightarrow> go_panic + yaml_node" where
  "root_content0 info =
     (case root_content info of
        Inl p \<Rightarrow> Inl p
      | Inr [] \<Rightarrow> Inl (IndexOutOfRange 0 0)
      | Inr (m # ms) \<Rightarrow> Inr m)"

subsection \<open>The extraction functions of low/v3\<close>

text \<open>
  Each extraction function takes the document and returns it updated, with the error it
  returns (\<open>None\<close> for \<^verbatim>\<open>nil\<close>).  A panic is on the left.
\<close>

type_synonym 'a extraction = "go_panic + ('a Document \<times> go_error option)"

definition extractInfo :: "'a deps \<Rightarrow> SpecInfo \<Rightarrow> 'a Document \<Rightarrow> 'a \<Rightarrow> 'a extraction" where
  "extractInfo deps info doc idx =
     (case root_content0 info of
        Inl p \<Rightarrow> Inl p
      | Inr m \<Rightarrow>
          (case FindKeyNodeFullTop deps InfoLabel (yContent m) of
             (_, ln, None) \<Rightarrow> Inr (doc, None)
           | (_, ln, Some vn) \<Rightarrow>
               Inr (doc\<lparr>Info := Some \<lparr>nrValue = BuildInfo deps ln vn idx,
                                      nrKeyNode = ln, nrValueNode = Some vn\<rparr>\<rparr>, None)))"

definition extractSecurity :: "'a deps \<Rightarrow> SpecInfo \<Rightarrow> 'a Document \<Rightarrow> 'a \<Rightarrow> 'a extraction" where
  "extractSecurity deps info doc idx =
     (case root_content0 info of
        Inl p \<Rightarrow> Inl p
      | Inr m \<Rightarrow>
          (case ExtractArray deps SecurityLabel m idx of
             Inl err \<Rightarrow> Inr (doc, Some err)
           | Inr (sec, ln, vn) \<Rightarrow>
               if vn \<noteq> None \<and> ln \<noteq> None
               then Inr (doc\<lparr>Security := Some \<lparr>nrValue = sec, nrKeyNode = ln,
                                               nrValueNode = vn\<rparr>\<rparr>, None)
               else Inr (doc, None)))"

definition extractExternalDocs ::
    "'a deps \<Rightarrow> SpecInfo \<Rightarrow> 'a Document \<Rightarrow> 'a \<Rightarrow> 'a extraction" where
  "extractExternalDocs deps info doc idx =
     (case root_content0 info of
        Inl p \<Rightarrow> Inl p
      | Inr m \<Rightarrow>
          (case ExtractObject deps ExternalDocsLabel m idx of
             Inl dErr \<Rightarrow> Inr (doc, Some dErr)
           | Inr extDocs \<Rightarrow> Inr (doc\<lparr>ExternalDocs := extDocs\<rparr>, None)))"

definition extractComponents ::
    "'a deps \<Rightarrow> SpecInfo \<Rightarrow> 'a Document \<Rightarrow> 'a \<Rightarrow> 'a extraction" where
  "extractComponents deps info doc idx =
     (case root_content0 info of
        Inl p \<Rightarrow> Inl p
      | Inr m \<Rightarrow>
          (case FindKeyNodeFullTop deps ComponentsLabel (yContent m) of
             (_, ln, None) \<Rightarrow> Inr (doc, None)
           | (_, ln, Some vn) \<Rightarrow>
               (case BuildComponents deps vn idx of
                  Inl err \<Rightarrow> Inr (doc, Some err)
                | Inr ir \<Rightarrow>
                    Inr (doc\<lparr>Components := Some \<lparr>nrValue = ir, nrKeyNode = ln,
                                                  nrValueNode = Some vn\<rparr>\<rparr>, None))))"

text \<open>
  The loop of \<^verbatim>\<open>extractServers\<close> over \<^verbatim>\<open>vn.Content\<close>: a mapping item is built and
  appended, any other item is passed over.  The error of \<^verbatim>\<open>srvr.Build\<close> is discarded.
\<close>

fun servers_loop ::
    "'a deps \<Rightarrow> yaml_node option \<Rightarrow> 'a \<Rightarrow> yaml_node list \<Rightarrow> 'a ValueReference list \<Rightarrow>
     'a ValueReference list" where
  "servers_loop deps ln idx [] servers = servers"
| "servers_loop deps ln idx (srvN # rest) servers =
     servers_loop deps ln idx rest
       (if IsNodeMap deps srvN
        then servers @ [\<lparr>vrValue = BuildServer deps ln srvN idx, vrValueNode = Some srvN\<rparr>]
        else servers)"

definition extractServers :: "'a deps \<Rightarrow> SpecInfo \<Rightarrow> 'a Document \<Rightarrow> 'a \<Rightarrow> 'a extraction" where
  "extractServers deps info doc idx =
     (case root_content0 info of
        Inl p \<Rightarrow> Inl p
      | Inr m \<Rightarrow>
          (case FindKeyNodeFull deps ServersLabel (yContent m) of
             (_, ln, None) \<Rightarrow> Inr (doc, None)
           | (_, ln, Some vn) \<Rightarrow>
               if IsNodeArray deps vn
               then Inr (doc\<lparr>Servers := Some \<lparr>nrValue = servers_loop deps ln idx (yContent vn) [],
                                              nrKeyNode = ln, nrValueNode = Some vn\<rparr>\<rparr>, None)
               else Inr (doc, None)))"

text \<open>
  The loop of \<^verbatim>\<open>extractTags\<close>: as for the servers, but an error of \<^verbatim>\<open>tag.Build\<close>
  leaves the function at once.
\<close>

fun tags_loop ::
    "'a deps \<Rightarrow> yaml_node option \<Rightarrow> 'a \<Rightarrow> yaml_node list \<Rightarrow> 'a ValueReference list \<Rightarrow>
     go_error + 'a ValueReference list" where
  "tags_loop deps ln idx [] tags = Inr tags"
| "tags_loop deps ln idx (tagN # rest) tags =
     (if IsNodeMap deps tagN
      then (case BuildTag deps ln tagN idx of
              Inl err \<Rightarrow> Inl err
            | Inr tag \<Rightarrow>
                tags_loop deps ln idx rest (tags @ [\<lparr>vrValue = tag, vrValueNode = Some tagN\<rparr>]))
      else tags_loop deps ln idx rest tags)"

definition extractTags :: "'a deps \<Rightarrow> SpecInfo \<Rightarrow> 'a Document \<Rightarrow> 'a \<Rightarrow> 'a extraction" where
  "extractTags deps info doc idx =
     (case root_content0 info of
        Inl p \<Rightarrow> Inl p
      | Inr m \<Rightarrow>
          (case FindKeyNodeFull deps TagsLabel (yContent m) of
             (_, ln, None) \<Rightarrow> Inr (doc, None)
           | (_, ln, Some vn) \<Rightarrow>
               if IsNodeArray deps vn
               then (case tags_loop deps ln idx (yContent vn) [] of
                       Inl err \<Rightarrow> Inr (doc, Some err)
                     | Inr tags \<Rightarrow>
                         Inr (doc\<lparr>Tags := Some \<lparr>nrValue = tags, nrKeyNode = ln,
                                                nrValueNode = Some vn\<rparr>\<rparr>, None))
               else Inr (doc, None)))"

definition extractPaths :: "'a deps \<Rightarrow> SpecInfo \<Rightarrow> 'a Document \<Rightarrow> 'a \<Rightarrow> 'a extraction" where
  "extractPaths deps info doc idx =
     (case root_content0 info of
        Inl p \<Rightarrow> Inl p
      | Inr m \<Rightarrow>
          (case FindKeyNodeFull deps PathsLabel (yContent m) of
             (_, ln, None) \<Rightarrow> Inr (doc, None)
           | (_, ln, Some vn) \<Rightarrow>
               (case BuildPaths deps ln vn idx of
                  Inl err \<Rightarrow> Inr (doc, Some err)
                | Inr ir \<Rightarrow>
                    Inr (doc\<lparr>Paths := Some \<lparr>nrValue = ir, nrKeyNode = ln,
                                             nrValueNode = Some vn\<rparr>\<rparr>, None))))"

definition extractWebhooks :: "'a deps \<Rightarrow> SpecInfo \<Rightarrow> 'a Document \<Rightarrow> 'a \<Rightarrow> 'a extraction" where
  "extractWebhooks deps info doc idx =
     (case RootNode info of
        None \<Rightarrow> Inl NilDereference
      | Some root \<Rightarrow>
          (case ExtractMap deps WebhooksLabel root idx of
             Inl eErr \<Rightarrow> Inr (doc, Some eErr)
           | Inr (None, hooksL, hooksN) \<Rightarrow> Inr (doc, None)
           | Inr (Some hooks, hooksL, hooksN) \<Rightarrow>
               Inr (doc\<lparr>Webhooks := Some \<lparr>nrValue = hooks, nrKeyNode = hooksL,
                                          nrValueNode = hooksN\<rparr>\<rparr>, None)))"

text \<open>
  The extraction functions are started as goroutines, one each, and joined by a wait
  group.  Each writes a field of its own of the shared document, and appends its error,
  if any, to the shared slice.  The model runs them one after the other in the order
  \<open>sched\<close> in which the scheduler lets them finish, a rearrangement of the source's
  slice \<open>extractionFuncs\<close> (the order in which they are started).
\<close>

type_synonym 'a extraction_func =
  "'a deps \<Rightarrow> SpecInfo \<Rightarrow> 'a Document \<Rightarrow> 'a \<Rightarrow> 'a extraction"

definition extractionFuncs :: "'a extraction_func list" where
  "extractionFuncs =
     [extractInfo, extractServers, extractTags, extractComponents, extractSecurity,
      extractExternalDocs, extractPaths, extractWebhooks]"

definition runExtraction ::
    "'a deps \<Rightarrow> SpecInfo \<Rightarrow> 'a \<Rightarrow> 'a extraction_func \<Rightarrow> 'a Document \<times> go_error list \<Rightarrow>
     go_panic + ('a Document \<times> go_error list)" where
  "runExtraction deps info idx runFunc st =
     (case runFunc deps info (fst st) idx of
        Inl p \<Rightarrow> Inl p
      | Inr (doc', None) \<Rightarrow> Inr (doc', snd st)
      | Inr (doc', Some er) \<Rightarrow> Inr (doc', snd st @ [er]))"

fun runExtractions ::
    "'a deps \<Rightarrow> SpecInfo \<Rightarrow> 'a \<Rightarrow> 'a extraction_func list \<Rightarrow> 'a Document \<times> go_error list \<Rightarrow>
     go_panic + ('a Document \<times> go_error list)" where
  "runExtractions deps info idx [] st = Inr st"
| "runExtractions deps info idx (f # fs) st =
     (case runExtraction deps info idx f st of
        Inl p \<Rightarrow> Inl p
      | Inr st' \<Rightarrow> runExtractions deps info idx fs st')"

subsection \<open>createDocument (low/v3)\<close>

text \<open>
  Lines 39 to 107: the index configuration, the rolodex and its file systems.  The
  result is an error (the function returns \<^verbatim>\<open>nil, err\<close>) or the configuration and
  the rolodex.  The rolodex holds a pointer to the configuration, which is still written
  after \<^verbatim>\<open>NewRolodex\<close>; the model hands the final configuration to the indexing.
  \<^verbatim>\<open>idxConfig.BaseURL\<close> is the pointer \<^verbatim>\<open>config.BaseURL\<close> (line 45), so where it is not
  \<^verbatim>\<open>nil\<close> the string of \<^verbatim>\<open>config.BaseURL\<close> is the string of that URL.
\<close>

definition idxConfig_of :: "'a deps \<Rightarrow> SpecInfo \<Rightarrow> 'a DocumentConfiguration \<Rightarrow> SpecIndexConfig" where
  "idxConfig_of deps info config =
     (CreateClosedAPIIndexConfig deps)
       \<lparr>cfgSpecInfo := Some info,
        cfgIgnoreArrayCircularReferences := IgnoreArrayCircularReferences config,
        cfgIgnorePolymorphicCircularReferences := IgnorePolymorphicCircularReferences config,
        cfgAvoidCircularReferenceCheck := True,
        cfgBaseURL := BaseURL config,
        cfgBasePath := BasePath config\<rparr>"

definition addLocalFileSystem ::
    "'a deps \<Rightarrow> 'a DocumentConfiguration \<Rightarrow> SpecIndexConfig \<times> 'a \<Rightarrow>
     go_error + (SpecIndexConfig \<times> 'a)" where
  "addLocalFileSystem deps config st =
     (case st of (idxConfig, rolodex) \<Rightarrow>
        if cfgBasePath idxConfig \<noteq> []
        then (case filepath_Abs deps (BasePath config) of
                Inl absError \<Rightarrow> Inl absError
              | Inr cwd \<Rightarrow>
                  (case LocalFS config of
                     Some fs \<Rightarrow> Inr (idxConfig, AddLocalFS deps cwd fs rolodex)
                   | None \<Rightarrow>
                       (case NewLocalFSWithConfig deps cwd (FileFilter config) of
                          Inl err \<Rightarrow> Inl err
                        | Inr fileFS \<Rightarrow>
                            Inr (idxConfig\<lparr>cfgAllowFileLookup := True\<rparr>,
                                 AddLocalFS deps cwd fileFS rolodex))))
        else Inr st)"

definition addRemoteFileSystem ::
    "'a deps \<Rightarrow> 'a DocumentConfiguration \<Rightarrow> SpecIndexConfig \<times> 'a \<Rightarrow>
     go_error + (SpecIndexConfig \<times> 'a)" where
  "addRemoteFileSystem deps config st =
     (case st of (idxConfig, rolodex) \<Rightarrow>
        (case cfgBaseURL idxConfig of
           None \<Rightarrow> Inr st
         | Some u \<Rightarrow>
             (case RemoteFS config of
                Some fs \<Rightarrow>
                  (case BaseURL config of
                     None \<Rightarrow> Inl (ErrorMsg ''cannot use remote filesystem without a BaseURL'')
                   | Some url \<Rightarrow> Inr (idxConfig, AddRemoteFS deps url fs rolodex))
              | None \<Rightarrow>
                  (case NewRemoteFSWithConfig deps idxConfig of
                     Inl fsErr \<Rightarrow> Inl fsErr
                   | Inr remoteFS \<Rightarrow>
                       Inr (idxConfig\<lparr>cfgAllowRemoteLookup := True\<rparr>,
                            AddRemoteFS deps u
                              (case RemoteURLHandler config of
                                 None \<Rightarrow> remoteFS
                               | Some h \<Rightarrow> SetRemoteHandlerFunc deps h remoteFS)
                              rolodex)))))"

definition new_Document :: "string NodeReference \<Rightarrow> 'a Document" where
  "new_Document version =
     \<lparr>Version = version, Info = None, JsonSchemaDialect = None, Webhooks = None,
      Servers = None, Paths = None, Components = None, Security = None, Tags = None,
      ExternalDocs = None, Extensions = None, Index = None, Rolodex = None\<rparr>"

text \<open>
  Lines 39 to 107 as one step: an error of the file-system set-up makes
  \<^verbatim>\<open>createDocument\<close> return \<^verbatim>\<open>nil, err\<close>.
\<close>

definition setupFileSystems ::
    "'a deps \<Rightarrow> SpecInfo \<Rightarrow> yaml_node \<Rightarrow> 'a DocumentConfiguration \<Rightarrow>
     go_error + (SpecIndexConfig \<times> 'a)" where
  "setupFileSystems deps info root config =
     (let idxConfig = idxConfig_of deps info config;
          rolodex = SetRootNode deps root (NewRolodex deps idxConfig)
      in (case addLocalFileSystem deps config (idxConfig, rolodex) of
            Inl err \<Rightarrow> Inl err
          | Inr st \<Rightarrow> addRemoteFileSystem deps config st))"

text \<open>
  Lines 113 to 118: indexing and the circular reference check.  The error of
  \<^verbatim>\<open>IndexTheRolodex\<close> is discarded.
\<close>

definition indexRolodex ::
    "'a deps \<Rightarrow> 'a DocumentConfiguration \<Rightarrow> SpecIndexConfig \<times> 'a \<Rightarrow> 'a" where
  "indexRolodex deps config st =
     (let indexed = IndexTheRolodex deps (fst st) (snd st)
      in if \<not> SkipCircularReferenceCheck config
         then CheckForCircularReferences deps indexed else indexed)"

text \<open>
  Lines 120 to 168: the caught errors, the root index, the extensions, the dialect and
  the extractions.  \<^verbatim>\<open>doc.Rolodex\<close> is a pointer to the rolodex, so the document sees
  the rolodex as the indexing left it.
\<close>

definition indexAndExtract ::
    "'a deps \<Rightarrow> 'a extraction_func list \<Rightarrow> SpecInfo \<Rightarrow> 'a DocumentConfiguration \<Rightarrow>
     'a Document \<Rightarrow> SpecIndexConfig \<times> 'a \<Rightarrow> go_panic + ('a Document option \<times> go_error option)" where
  "indexAndExtract deps sched info config doc st =
     (let rolodex = indexRolodex deps config st;
          errs = [] @ GetCaughtErrors deps rolodex;
          idx = GetRootIndex deps rolodex
      in (case root_content0 info of
            Inl p \<Rightarrow> Inl p
          | Inr m \<Rightarrow>
              (case root_content info of
                 Inl p \<Rightarrow> Inl p
               | Inr content \<Rightarrow>
                   let doc1 = doc\<lparr>Rolodex := Some rolodex, Index := Some idx,
                                  Extensions := Some (ExtractExtensions deps m)\<rparr>;
                       doc2 = (case FindKeyNodeFull deps JSONSchemaDialectLabel content of
                                 (_, dialectLabel, None) \<Rightarrow> doc1
                               | (_, dialectLabel, Some dialectNode) \<Rightarrow>
                                   doc1\<lparr>JsonSchemaDialect :=
                                          Some \<lparr>nrValue = yValue dialectNode,
                                                nrKeyNode = dialectLabel,
                                                nrValueNode = Some dialectNode\<rparr>\<rparr>)
                   in (case runExtractions deps info idx sched (doc2, errs) of
                         Inl p \<Rightarrow> Inl p
                       | Inr (doc3, errs') \<Rightarrow> Inr (Some doc3, errors_Join errs')))))"

text \<open>
  \<^verbatim>\<open>createDocument(info, config)\<close>.  The result is the pair the function returns: the
  document (\<open>None\<close> for \<^verbatim>\<open>nil\<close>) and the error (\<open>None\<close> for \<^verbatim>\<open>nil\<close>).  The
  configuration is a pointer, first read after the version check.
\<close>

definition MissingVersion :: go_error where
  "MissingVersion = ErrorMsg ''no openapi version/tag found, cannot create document''"

definition createDocument ::
    "'a deps \<Rightarrow> 'a extraction_func list \<Rightarrow> SpecInfo \<Rightarrow> 'a DocumentConfiguration option \<Rightarrow>
     go_panic + ('a Document option \<times> go_error option)" where
  "createDocument deps sched info config =
     (case RootNode info of
        None \<Rightarrow> Inl NilDereference
      | Some root \<Rightarrow>
          (case FindKeyNodeFull deps OpenAPILabel (yContent root) of
             (_, labelNode, None) \<Rightarrow> Inr (None, Some MissingVersion)
           | (_, labelNode, Some versionNode) \<Rightarrow>
               (case config of
                  None \<Rightarrow> Inl NilDereference
                | Some config \<Rightarrow>
                    let version = \<lparr>nrValue = yValue versionNode, nrKeyNode = labelNode,
                                   nrValueNode = Some versionNode\<rparr>;
                        doc = new_Document version
                    in (case setupFileSystems deps info root config of
                          Inl err \<Rightarrow> Inr (None, Some err)
                        | Inr st \<Rightarrow> indexAndExtract deps sched info config doc st))))"

definition CreateDocumentFromConfig ::
    "'a deps \<Rightarrow> 'a extraction_func list \<Rightarrow> SpecInfo \<Rightarrow> 'a DocumentConfiguration option \<Rightarrow>
     go_panic + ('a Document option \<times> go_error option)" where
  "CreateDocumentFromConfig deps sched info config = createDocument deps sched info config"

subsection \<open>CreateDocument (low/3.0)\<close>

type_synonym 'a extraction_30 = "go_panic + ('a Document_30 \<times> go_error option)"

type_synonym 'a extraction_func_30 =
  "'a deps \<Rightarrow> SpecInfo \<Rightarrow> 'a Document_30 \<Rightarrow> 'a \<Rightarrow> 'a extraction_30"





fun servers_loop_30 ::
    "'a deps \<Rightarrow> 'a \<Rightarrow> yaml_node list \<Rightarrow> 'a ValueReference list \<Rightarrow> 'a ValueReference list" where
  "servers_loop_30 deps idx [] servers = servers"
| "servers_loop_30 deps idx (srvN # rest) servers =
     servers_loop_30 deps idx rest
       (if IsNodeMap deps srvN
        then servers @ [\<lparr>vrValue = BuildServer_30 deps srvN idx, vrValueNode = Some srvN\<rparr>]
        else servers)"

definition extractServers_30 :: "'a extraction_func_30" where
  "extractServers_30 deps info doc idx =
     (case root_content info of
        Inl p \<Rightarrow> Inl p
      | Inr content \<Rightarrow>
          (case FindKeyNodeFull deps ServersLabel content of
             (_, ln, None) \<Rightarrow> Inr (doc, None)
           | (_, ln, Some vn) \<Rightarrow>
               if IsNodeArray deps vn
               then Inr (doc\<lparr>Servers_30 := Some \<lparr>nrValue = servers_loop_30 deps idx (yContent vn) [],
                                                 nrKeyNode = ln, nrValueNode = Some vn\<rparr>\<rparr>, None)
               else Inr (doc, None)))"

fun tags_loop_30 ::
    "'a deps \<Rightarrow> 'a \<Rightarrow> yaml_node list \<Rightarrow> 'a ValueReference list \<Rightarrow>
     go_error + 'a ValueReference list" where
  "tags_loop_30 deps idx [] tags = Inr tags"
| "tags_loop_30 deps idx (tagN # rest) tags =
     (if IsNodeMap deps tagN
      then (case BuildTag_30 deps tagN idx of
              Inl err \<Rightarrow> Inl err
            | Inr tag \<Rightarrow>
                tags_loop_30 deps idx rest (tags @ [\<lparr>vrValue = tag, vrValueNode = Some tagN\<rparr>]))
      else tags_loop_30 deps idx rest tags)"

definition extractTags_30 :: "'a extraction_func_30" where
  "extractTags_30 deps info doc idx =
     (case root_content info of
        Inl p \<Rightarrow> Inl p
      | Inr content \<Rightarrow>
          (case FindKeyNodeFull deps TagsLabel content of
             (_, ln, None) \<Rightarrow> Inr (doc, None)
           | (_, ln, Some vn) \<Rightarrow>
               if IsNodeArray deps vn
               then (case tags_loop_30 deps idx (yContent vn) [] of
                       Inl err \<Rightarrow> Inr (doc, Some err)
                     | Inr tags \<Rightarrow>
                         Inr (doc\<lparr>Tags_30 := Some \<lparr>nrValue = tags, nrKeyNode = ln,
                                                   nrValueNode = Some vn\<rparr>\<rparr>, None))
               else Inr (doc, None)))"






subsection \<open>What the extraction functions report and write\<close>






section \<open>A concrete instance of the parameters\<close>

text \<open>
  Modelled from the spec: the node utilities are not among the sources at hand.  The spec
  has \<open>FindKeyTop(map, key)\<close> "locate \<open>key\<close> at the top level of a YAML mapping node
  only", returning the key node and the value node or nulls, and the shape tests
  \<open>IsMap\<close>, \<open>IsArray\<close> over the node kinds.  \<open>example_FindKeyNodeFull\<close> looks the key
  up among the given nodes read as key/value pairs and, failing that, at the top level
  of each mapping among them, which is what the call on the children of the document
  node needs.  The instance serves the concrete examples below; no general theorem refers
  to it.
\<close>

fun find_pair :: "string \<Rightarrow> yaml_node list \<Rightarrow> (yaml_node \<times> yaml_node) option" where
  "find_pair key (k # v # rest) = (if yValue k = key then Some (k, v) else find_pair key rest)"
| "find_pair key rest = None"

definition example_FindKeyNodeFullTop ::
    "string \<Rightarrow> yaml_node list \<Rightarrow> yaml_node option \<times> yaml_node option \<times> yaml_node option" where
  "example_FindKeyNodeFullTop key nodes =
     (case find_pair key nodes of
        None \<Rightarrow> (None, None, None)
      | Some (k, v) \<Rightarrow> (Some k, Some k, Some v))"

fun find_in_mappings :: "string \<Rightarrow> yaml_node list \<Rightarrow> (yaml_node \<times> yaml_node \<times> yaml_node) option" where
  "find_in_mappings key [] = None"
| "find_in_mappings key (n # ns) =
     (case (if yKind n = MappingNode then find_pair key (yContent n) else None) of
        Some (k, v) \<Rightarrow> Some (n, k, v)
      | None \<Rightarrow> find_in_mappings key ns)"

definition example_FindKeyNodeFull ::
    "string \<Rightarrow> yaml_node list \<Rightarrow> yaml_node option \<times> yaml_node option \<times> yaml_node option" where
  "example_FindKeyNodeFull key nodes =
     (case find_pair key nodes of
        Some (k, v) \<Rightarrow> (Some k, Some k, Some v)
      | None \<Rightarrow>
          (case find_in_mappings key nodes of
             None \<Rightarrow> (None, None, None)
           | Some (n, k, v) \<Rightarrow> (Some n, Some k, Some v)))"

definition example_index_config :: SpecIndexConfig where
  "example_index_config =
     \<lparr>cfgBaseURL = None, cfgBasePath = [], cfgAllowRemoteLookup = False,
      cfgAllowFileLookup = False, cfgAvoidCircularReferenceCheck = False,
      cfgIgnorePolymorphicCircularReferences = False,
      cfgIgnoreArrayCircularReferences = False, cfgSpecInfo = None\<rparr>"

text \<open>
  The other parameters of the instance: built objects are named by strings; every build
  succeeds except that of a tag whose node holds no \<open>name\<close>; the local file system
  cannot be created (its directory is taken not to exist).
\<close>

definition example_deps :: "string deps" where
  "example_deps =
     \<lparr>FindKeyNodeFull = example_FindKeyNodeFull,
      FindKeyNodeFullTop = example_FindKeyNodeFullTop,
      IsNodeArray = (\<lambda>n. yKind n = SequenceNode),
      IsNodeMap = (\<lambda>n. yKind n = MappingNode),
      ExtractExtensions = (\<lambda>n. ''extensions''),
      ExtractArray = (\<lambda>label n idx. Inr (''array'', None, None)),
      ExtractObject = (\<lambda>label n idx. Inr None),
      ExtractMap = (\<lambda>label n idx. Inr (None, None, None)),
      BuildInfo = (\<lambda>ln vn idx. ''info''),
      BuildServer = (\<lambda>ln vn idx. ''server''),
      BuildTag = (\<lambda>ln vn idx. case find_pair ''name'' (yContent vn) of
                                 None \<Rightarrow> Inl (ErrorMsg ''tag without a name'')
                               | Some (k, v) \<Rightarrow> Inr (yValue v)),
      BuildComponents = (\<lambda>vn idx. Inr ''components''),
      BuildPaths = (\<lambda>ln vn idx. Inr ''paths''),
      CreateClosedAPIIndexConfig = example_index_config,
      NewRolodex = (\<lambda>cfg. ''rolodex''),
      SetRootNode = (\<lambda>n r. r),
      AddLocalFS = (\<lambda>dir fs r. r),
      AddRemoteFS = (\<lambda>url fs r. r),
      IndexTheRolodex = (\<lambda>cfg r. r),
      CheckForCircularReferences = (\<lambda>r. r),
      GetCaughtErrors = (\<lambda>r. []),
      GetRootIndex = (\<lambda>r. ''index''),
      filepath_Abs = (\<lambda>p. Inr p),
      NewLocalFSWithConfig = (\<lambda>dir filters. Inl (ErrorMsg ''no such directory'')),
      NewRemoteFSWithConfig = (\<lambda>cfg. Inr ''remote''),
      SetRemoteHandlerFunc = (\<lambda>h fs. fs),
      ExtractObject_30 = (\<lambda>label n idx. Inr None),
      BuildInfo_30 = (\<lambda>vn idx. ''info''),
      BuildServer_30 = (\<lambda>vn idx. ''server''),
      BuildTag_30 = (\<lambda>vn idx. case find_pair ''name'' (yContent vn) of
                                 None \<Rightarrow> Inl (ErrorMsg ''tag without a name'')
                               | Some (k, v) \<Rightarrow> Inr (yValue v)),
      BuildComponents_30 = (\<lambda>vn idx. Inr ''components''),
      BuildPaths_30 = (\<lambda>vn idx. Inr ''paths''),
      NewSpecIndex = (\<lambda>n. ''index''),
      ResolverCheckForCircularReferences = (\<lambda>idx. idx)\<rparr>"


definition scalar :: "string \<Rightarrow> int \<Rightarrow> int \<Rightarrow> yaml_node" where
  "scalar v line col = YNode ScalarNode ''!!str'' v line col []"

definition mapping :: "int \<Rightarrow> int \<Rightarrow> yaml_node list \<Rightarrow> yaml_node" where
  "mapping line col kvs = YNode MappingNode ''!!map'' [] line col kvs"

definition sequence :: "int \<Rightarrow> int \<Rightarrow> yaml_node list \<Rightarrow> yaml_node" where
  "sequence line col items = YNode SequenceNode ''!!seq'' [] line col items"

definition document :: "yaml_node \<Rightarrow> SpecInfo" where
  "document m = \<lparr>RootNode = Some (YNode DocumentNode [] [] 1 1 [m]), infoVersion = ''3.0.0''\<rparr>"

text \<open>The spec's scenario 1: \<^verbatim>\<open>openapi: "3.0.0"\<close>, \<^verbatim>\<open>info: {title: t, version: v}\<close>.\<close>

definition minimal_document :: SpecInfo where
  "minimal_document =
     document (mapping 1 1
       [scalar ''openapi'' 1 1, scalar ''3.0.0'' 1 10,
        scalar ''info'' 2 1,
        mapping 3 3 [scalar ''title'' 3 3, scalar ''t'' 3 10,
                     scalar ''version'' 4 3, scalar ''v'' 4 12]])"

text \<open>The spec's scenario 2: \<^verbatim>\<open>info: {title: t}\<close>, no \<open>openapi\<close> key.\<close>

definition versionless_document :: SpecInfo where
  "versionless_document =
     document (mapping 1 1
       [scalar ''info'' 1 1, mapping 2 3 [scalar ''title'' 2 3, scalar ''t'' 2 10]])"

text \<open>
  \<^verbatim>\<open>servers\<close> holds a scalar; \<^verbatim>\<open>tags\<close> holds a sequence of a mapping, a scalar and a
  second mapping.
\<close>

definition odd_sections_document :: SpecInfo where
  "odd_sections_document =
     document (mapping 1 1
       [scalar ''openapi'' 1 1, scalar ''3.0.0'' 1 10,
        scalar ''servers'' 2 1, scalar ''none'' 2 10,
        scalar ''tags'' 3 1,
        sequence 4 3
          [mapping 4 5 [scalar ''name'' 4 5, scalar ''a'' 4 11],
           scalar ''stray'' 5 5,
           mapping 6 5 [scalar ''name'' 6 5, scalar ''b'' 6 11]]])"

definition default_config :: "string DocumentConfiguration" where
  "default_config =
     \<lparr>BaseURL = None, RemoteURLHandler = None, BasePath = [], FileFilter = [],
      RemoteFS = None, LocalFS = None, IgnorePolymorphicCircularReferences = False,
      IgnoreArrayCircularReferences = False, SkipCircularReferenceCheck = False\<rparr>"


section \<open>The node builder (package high)\<close>

subsection \<open>Go values as reflection sees them\<close>

text \<open>
  The node builder reads the high and the low object by reflection.  A value held in an
  \<^verbatim>\<open>any\<close> is modelled by what reflection can tell of it: its kind, whether it is
  \<^verbatim>\<open>nil\<close> or zero, and for the kinds the builder looks into, its contents.
  \<^item> \<open>NilV\<close>: the \<^verbatim>\<open>nil\<close> interface.
  \<^item> \<open>IntV\<close>: kinds \<^verbatim>\<open>Int\<close> to \<^verbatim>\<open>Int64\<close>; \<open>StringV\<close>, \<open>BoolV\<close>.
  \<^item> \<open>SliceV\<close>, \<open>MapV\<close>: \<open>None\<close> is the \<^verbatim>\<open>nil\<close> slice or map; the entries of a map
    stand in the order in which \<^verbatim>\<open>MapKeys\<close> hands out the keys (Go leaves it open).
  \<^item> \<open>PtrV isnil m\<close>: a pointer; \<open>m\<close> is \<open>Some r\<close> when its type implements
    \<^verbatim>\<open>Renderable\<close>, \<open>r\<close> being what \<^verbatim>\<open>MarshalYAML\<close> does on it.
  \<^item> \<open>StructV zero vr\<close>: a struct, \<open>zero\<close> when all its fields are zero; \<open>vr\<close> is
    \<open>Some n\<close> when it is a \<^verbatim>\<open>low.ValueReference[any]\<close> whose value node is \<open>n\<close>.
    (A value reference without a value node is outside the model.)
  \<^item> \<open>OtherV nilable isnil zero repr\<close>: any other kind (unsigned, float, array, chan,
    func, ...); \<open>nilable\<close> when \<^verbatim>\<open>IsNil\<close> is defined for the kind.
  A map key is a string, or a \<^verbatim>\<open>low.KeyReference\<close> with its key node (and the string
  \<^verbatim>\<open>reflect.Value.String\<close> prints for it).
\<close>

datatype marshal = MarshalNil | MarshalNode yaml_node | MarshalOther | MarshalPanic

datatype mapkey = StrKey string | KeyRef yaml_node string

datatype gvalue =
    NilV
  | IntV int
  | StringV string
  | BoolV bool
  | SliceV "gvalue list option"
  | MapV "(mapkey \<times> gvalue) list option"
  | PtrV bool "marshal option"
  | StructV bool "yaml_node option"
  | OtherV bool bool bool string

text \<open>\<^verbatim>\<open>reflect.Value.IsZero\<close>.\<close>

fun IsZero :: "gvalue \<Rightarrow> bool" where
  "IsZero NilV = True"
| "IsZero (IntV i) = (i = 0)"
| "IsZero (StringV s) = (s = [])"
| "IsZero (BoolV b) = (\<not> b)"
| "IsZero (SliceV xs) = (xs = None)"
| "IsZero (MapV m) = (m = None)"
| "IsZero (PtrV isnil m) = isnil"
| "IsZero (StructV zero vr) = zero"
| "IsZero (OtherV nilable isnil zero repr) = zero"

text \<open>
  \<^verbatim>\<open>strconv.FormatInt(i, 10)\<close>.  (A Go \<^verbatim>\<open>int64\<close> is bounded; the model formats any
  integer.)
\<close>

function digits :: "nat \<Rightarrow> string" where
  "digits n = (if n < 10 then [char_of (48 + n)] else digits (n div 10) @ [char_of (48 + n mod 10)])"
  by pat_completeness auto

termination
  by (relation "measure id") auto

declare digits.simps [simp del]

definition FormatInt :: "int \<Rightarrow> string" where
  "FormatInt i = (if i < 0 then CHR ''-'' # digits (nat (- i)) else digits (nat i))"

text \<open>
  \<^verbatim>\<open>reflect.Value.String\<close>: the string itself for a string, and for any other kind a
  note of the form \<^verbatim>\<open><T Value>\<close>; the model writes the kind for the type \<open>T\<close>.
\<close>

fun kind_name :: "gvalue \<Rightarrow> string" where
  "kind_name NilV = ''invalid''"
| "kind_name (IntV i) = ''int''"
| "kind_name (StringV s) = ''string''"
| "kind_name (BoolV b) = ''bool''"
| "kind_name (SliceV xs) = ''slice''"
| "kind_name (MapV m) = ''map''"
| "kind_name (PtrV isnil m) = ''ptr''"
| "kind_name (StructV zero vr) = ''struct''"
| "kind_name (OtherV nilable isnil zero repr) = repr"

definition value_String :: "gvalue \<Rightarrow> string" where
  "value_String v = (case v of StringV s \<Rightarrow> s | _ \<Rightarrow> ''<'' @ kind_name v @ '' Value>'')"

definition key_String :: "mapkey \<Rightarrow> string" where
  "key_String k = (case k of StrKey s \<Rightarrow> s | KeyRef n repr \<Rightarrow> repr)"

subsection \<open>The high object, the low object, the builder\<close>

text \<open>
  The high object is a pointer to a struct: the list of its fields in declaration order,
  each with its name, the \<open>yaml\<close> key of its struct tag, its value, and whether it is
  exported (reflection refuses \<^verbatim>\<open>Interface()\<close> on an unexported field).
\<close>

record hfield =
  fName :: string
  fTag :: string
  fValue :: gvalue
  fExported :: bool

text \<open>
  A field of the low object, as the builder reads it:
  \<^item> \<open>LowRef vn keys\<close>: a \<^verbatim>\<open>low.NodeReference\<close> (kind struct) with its value node
    \<open>vn\<close>; \<open>keys\<close> are the key nodes of the map it holds as value, \<open>None\<close> when the
    value is not a map;
  \<^item> \<open>LowStruct\<close>: a struct of another type;
  \<^item> \<open>LowMap keys\<close>: a map keyed by key references, without an enclosing struct;
  \<^item> \<open>LowOther\<close>: a value of any other kind; \<open>LowNil\<close>: a \<^verbatim>\<open>nil\<close> interface.
  The low object is the \<^verbatim>\<open>nil\<close> interface, a \<^verbatim>\<open>nil\<close> pointer, or a pointer to a struct
  with its fields by name and, when it implements \<^verbatim>\<open>low.HasExtensionsUntyped\<close>, what
  \<^verbatim>\<open>GetExtensions()\<close> returns: the value of each key and the value node of its entry.
\<close>

datatype low_field =
    LowRef "yaml_node option" "yaml_node list option"
  | LowStruct
  | LowMap "yaml_node list"
  | LowOther
  | LowNil

datatype low_obj =
    LowNilInterface
  | LowNilPtr
  | LowObj "(string \<times> low_field) list" "(string \<times> yaml_node option) list option"

record 'v NodeEntry =
  Tag :: string
  Key :: string
  Value :: 'v
  Line :: int

record NodeBuilder =
  Nodes :: "gvalue NodeEntry list"
  High :: "hfield list"
  Low :: low_obj

text \<open>
  \<^verbatim>\<open>unicode.IsLower(rune(key[0]))\<close>: the first byte of the name read as a code point,
  so the test is that of the Latin-1 range.
\<close>

definition IsLower :: "char \<Rightarrow> bool" where
  "IsLower c =
     (let b = (of_char c :: nat)
      in (0x61 \<le> b \<and> b \<le> 0x7A) \<or> b = 0xB5 \<or> (0xDF \<le> b \<and> b \<le> 0xF6) \<or> (0xF8 \<le> b \<and> b \<le> 0xFF))"

text \<open>
  The constant \<^verbatim>\<open>v3.TypeLabel\<close> is declared outside the sources at hand; in the
  repository it is the key \<open>type\<close>.
\<close>

definition TypeLabel :: string where
  "TypeLabel = ''type''"

definition bottom_line :: int where
  "bottom_line = 9999"

text \<open>Lines 113 to 140 of \<^verbatim>\<open>add\<close>: the value of the entry, by the kind of the field.\<close>

definition entry_value :: "string \<Rightarrow> gvalue \<Rightarrow> gvalue" where
  "entry_value tagName f =
     (case f of
        IntV i \<Rightarrow> StringV (FormatInt i)
      | StringV s \<Rightarrow> StringV s
      | BoolV b \<Rightarrow> BoolV b
      | SliceV xs \<Rightarrow>
          if tagName = TypeLabel
          then (case xs of Some [x] \<Rightarrow> StringV (value_String x) | _ \<Rightarrow> NilV)
          else (if xs \<noteq> None then f else NilV)
      | PtrV isnil m \<Rightarrow> if \<not> isnil then f else NilV
      | MapV m \<Rightarrow> if m \<noteq> None then f else NilV
      | _ \<Rightarrow> f)"

text \<open>
  Lines 145 to 160 of \<^verbatim>\<open>add\<close>: the line of the entry.  \<open>None\<close>: the line is left as
  it is (0 in a new entry).
\<close>

definition low_line :: "low_obj \<Rightarrow> string \<Rightarrow> go_panic + int option" where
  "low_line low key =
     (case low of
        LowNilInterface \<Rightarrow> Inl (ReflectPanic ''call of reflect.Value.IsZero on zero Value'')
      | LowNilPtr \<Rightarrow> Inr None
      | LowObj lowFields exts \<Rightarrow>
          (case map_of lowFields key of
             None \<Rightarrow> Inl (ReflectPanic ''call of reflect.Value.Interface on zero Value'')
           | Some (LowRef nb keys) \<Rightarrow> Inr (map_option yLine nb)
           | Some LowStruct \<Rightarrow> Inl (PanicMsg ''interface conversion: not low.HasValueNodeUntyped'')
           | Some lf \<Rightarrow> Inr (Some bottom_line)))"

text \<open>Lines 60 to 91 of \<^verbatim>\<open>add\<close>: the entries of the extensions.\<close>

fun original_line ::
    "string \<Rightarrow> (string \<times> yaml_node option) list \<Rightarrow> int \<Rightarrow> go_panic + int" where
  "original_line extKey [] line = Inr line"
| "original_line extKey ((k, vn) # rest) line =
     (if k = extKey
      then (case vn of
              None \<Rightarrow> Inl NilDereference
            | Some n \<Rightarrow> original_line extKey rest (yLine n))
      else original_line extKey rest line)"

definition extension_line :: "low_obj \<Rightarrow> string \<Rightarrow> go_panic + int" where
  "extension_line low extKey =
     (case low of
        LowNilInterface \<Rightarrow> Inl (ReflectPanic ''call of reflect.Value.IsZero on zero Value'')
      | LowNilPtr \<Rightarrow> Inr 0
      | LowObj lowFields exts \<Rightarrow>
          (case map_of lowFields ''Extensions'' of
             None \<Rightarrow> Inl (ReflectPanic ''call of reflect.Value.Interface on zero Value'')
           | Some (LowMap keys) \<Rightarrow>
               (case exts of
                  None \<Rightarrow> Inr 0
                | Some originalExtensions \<Rightarrow> original_line extKey originalExtensions 0)
           | Some lf \<Rightarrow> Inl (PanicMsg ''not supported yet'')))"

fun add_extensions ::
    "low_obj \<Rightarrow> (mapkey \<times> gvalue) list \<Rightarrow> gvalue NodeEntry list \<Rightarrow>
     go_panic + gvalue NodeEntry list" where
  "add_extensions low [] nodes = Inr nodes"
| "add_extensions low ((e, v) # rest) nodes =
     (case extension_line low (key_String e) of
        Inl p \<Rightarrow> Inl p
      | Inr line \<Rightarrow>
          add_extensions low rest
            (nodes @ [\<lparr>Tag = key_String e, Key = key_String e, Value = v, Line = line\<rparr>]))"

text \<open>
  \<^verbatim>\<open>func (n *NodeBuilder) add(key string)\<close>.  The builder is returned updated.
\<close>

definition add :: "NodeBuilder \<Rightarrow> string \<Rightarrow> go_panic + NodeBuilder" where
  "add n key =
     (case key of
        [] \<Rightarrow> Inl (IndexOutOfRange 0 0)
      | c # cs \<Rightarrow>
          if IsLower c then Inr n
          else
            (case find (\<lambda>f. fName f = key) (High n) of
               None \<Rightarrow> Inl (ReflectPanic ''call of reflect.Value.Interface on zero Value'')
             | Some field \<Rightarrow>
                 if key = ''Extensions''
                 then (case fValue field of
                         MapV extensions \<Rightarrow>
                           (case add_extensions (Low n)
                                   (case extensions of None \<Rightarrow> [] | Some kvs \<Rightarrow> kvs) (Nodes n) of
                              Inl p \<Rightarrow> Inl p
                            | Inr nodes \<Rightarrow> Inr (n\<lparr>Nodes := nodes\<rparr>))
                       | _ \<Rightarrow> Inl (ReflectPanic ''call of reflect.Value.MapKeys on non-map Value''))
                 else
                   let tag = fTag field;
                       tagName = hd (Split tag '','')
                   in if tag = ''-'' then Inr n
                      else if \<not> fExported field
                      then Inl (ReflectPanic ''reflect.Value.Interface: unexported field'')
                      else if fValue field = NilV \<or> IsZero (fValue field) then Inr n
                      else
                        (case low_line (Low n) key of
                           Inl p \<Rightarrow> Inl p
                         | Inr line \<Rightarrow>
                             let nodeEntry =
                                   \<lparr>Tag = tagName, Key = key,
                                    Value = entry_value tagName (fValue field),
                                    Line = (case line of None \<Rightarrow> 0 | Some l \<Rightarrow> l)\<rparr>
                             in if Value nodeEntry \<noteq> NilV
                                then Inr (n\<lparr>Nodes := Nodes n @ [nodeEntry]\<rparr>)
                                else Inr n)))"

text \<open>
  \<^verbatim>\<open>NewNodeBuilder(high, low)\<close>: \<^verbatim>\<open>add\<close> for every field of the high object, in
  declaration order.
\<close>

fun add_fields :: "NodeBuilder \<Rightarrow> string list \<Rightarrow> go_panic + NodeBuilder" where
  "add_fields nb [] = Inr nb"
| "add_fields nb (name # names) =
     (case add nb name of Inl p \<Rightarrow> Inl p | Inr nb' \<Rightarrow> add_fields nb' names)"

definition NewNodeBuilder :: "hfield list \<Rightarrow> low_obj \<Rightarrow> go_panic + NodeBuilder" where
  "NewNodeBuilder high low =
     add_fields \<lparr>Nodes = [], High = high, Low = low\<rparr> (map fName high)"

subsection \<open>Rendering\<close>

text \<open>
  \<^verbatim>\<open>sort.Slice(x, less)\<close> is a library function: it rearranges the slice so that it is
  ordered by \<open>less\<close>, and "is not guaranteed to be stable: equal elements may be
  reversed from their original order".  Its algorithm is a function of the outcomes of
  the comparisons, and both calls of the builder compare the \<open>Line\<close> of two entries, so
  the rearrangement is a function \<open>srt\<close> of the list of lines: \<open>srt ks\<close> lists, for each
  position of the result, the position the entry had before.  \<open>srt\<close> is a parameter of
  the model; \<open>sort_contract\<close> is what the library promises of it.
\<close>

definition sort_Slice :: "(int list \<Rightarrow> nat list) \<Rightarrow> 'v NodeEntry list \<Rightarrow> 'v NodeEntry list" where
  "sort_Slice srt xs = map (\<lambda>i. xs ! i) (srt (map Line xs))"

definition sort_contract :: "(int list \<Rightarrow> nat list) \<Rightarrow> bool" where
  "sort_contract srt =
     (\<forall>ks. mset (srt ks) = mset [0..<length ks] \<and> sorted (map (\<lambda>i. ks ! i) (srt ks)))"

definition CreateEmptyMapNode :: yaml_node where
  "CreateEmptyMapNode = YNode MappingNode ''!!map'' [] 0 0 []"

definition CreateStringNode :: "string \<Rightarrow> yaml_node" where
  "CreateStringNode str = YNode ScalarNode ''!!str'' str 0 0 []"

definition CreateBoolNode :: "string \<Rightarrow> yaml_node" where
  "CreateBoolNode str = YNode ScalarNode ''!!bool'' str 0 0 []"

definition set_Content :: "yaml_node \<Rightarrow> yaml_node list \<Rightarrow> yaml_node" where
  "set_Content n c = YNode (yKind n) (yTag n) (yValue n) (yLine n) (yColumn n) c"

text \<open>
  What \<^verbatim>\<open>AddYAMLNode\<close> makes of a value: \<open>Skip\<close> when it returns the parent as it is,
  \<open>Emit valueNode\<close> when it reaches the end with a value node.
\<close>

datatype rendered = Skip | Emit yaml_node

text \<open>
  The end of \<^verbatim>\<open>AddYAMLNode\<close> (lines 351 to 357): with a tag, the key node and the value
  node are appended to the parent; without, the parent takes the content of the value
  node.
\<close>

definition attach :: "yaml_node \<Rightarrow> string \<Rightarrow> rendered \<Rightarrow> yaml_node" where
  "attach parent tag r =
     (case r of
        Skip \<Rightarrow> parent
      | Emit valueNode \<Rightarrow>
          if tag \<noteq> []
          then set_Content parent (yContent parent @ [CreateStringNode tag, valueNode])
          else set_Content parent (yContent valueNode))"

text \<open>
  The key of a map entry (lines 222 to 228), and the lines under which a key \<open>x\<close> of a
  high map enters the ordered collection (lines 230 to 284): one entry for every key of
  the low map whose node has the value \<open>x\<close>, with that node's line; one entry at line
  9999 when there is no low object, no low field of the name \<open>key\<close>, or a \<^verbatim>\<open>nil\<close> one.
\<close>

definition key_name :: "mapkey \<Rightarrow> string" where
  "key_name k = (case k of StrKey s \<Rightarrow> s | KeyRef n repr \<Rightarrow> yValue n)"

definition key_lines :: "low_obj \<Rightarrow> string \<Rightarrow> string \<Rightarrow> go_panic + int list" where
  "key_lines low key x =
     (case low of
        LowNilInterface \<Rightarrow> Inl (ReflectPanic ''call of reflect.Value.IsZero on zero Value'')
      | LowNilPtr \<Rightarrow> Inr [bottom_line]
      | LowObj lowFields exts \<Rightarrow>
          (case map_of lowFields key of
             None \<Rightarrow> Inr [bottom_line]
           | Some LowNil \<Rightarrow> Inr [bottom_line]
           | Some (LowRef vn None) \<Rightarrow>
               Inl (ReflectPanic ''call of reflect.Value.MapKeys on non-map Value'')
           | Some (LowRef vn (Some keys)) \<Rightarrow>
               Inr (map yLine (filter (\<lambda>ky. yValue ky = x) keys))
           | Some (LowMap keys) \<Rightarrow> Inr (map yLine (filter (\<lambda>ky. yValue ky = x) keys))
           | Some lf \<Rightarrow> Inl (ReflectPanic ''call of reflect.Value.MapKeys on non-map Value'')))"

text \<open>
  The loop over the keys of the high map: the ordered collection.  The value of an entry
  is kept as what \<^verbatim>\<open>AddYAMLNode\<close> will make of it (a panic, \<open>Skip\<close> or a node): the
  function is pure, and the entry is only looked at when its turn comes.
\<close>

fun collect ::
    "low_obj \<Rightarrow> string \<Rightarrow> (string \<times> 'v) list \<Rightarrow> 'v NodeEntry list \<Rightarrow>
     go_panic + 'v NodeEntry list" where
  "collect low key [] orderedCollection = Inr orderedCollection"
| "collect low key ((x, v) # rest) orderedCollection =
     (case key_lines low key x of
        Inl p \<Rightarrow> Inl p
      | Inr lines \<Rightarrow>
          collect low key rest
            (orderedCollection @ map (\<lambda>l. \<lparr>Tag = x, Key = x, Value = v, Line = l\<rparr>) lines))"

fun attach_all ::
    "(go_panic + rendered) NodeEntry list \<Rightarrow> yaml_node \<Rightarrow> go_panic + yaml_node" where
  "attach_all [] p = Inr p"
| "attach_all (cv # rest) p =
     (case Value cv of
        Inl e \<Rightarrow> Inl e
      | Inr r \<Rightarrow> attach_all rest (attach p (Tag cv) r))"

text \<open>
  \<^verbatim>\<open>AddYAMLNode(parent, tag, key, value)\<close>, lines 184 to 350: the value node.  \<open>enc\<close>
  is the YAML library's \<^verbatim>\<open>Node.Encode\<close>, \<open>None\<close> when it returns an error.
\<close>

fun render ::
    "(int list \<Rightarrow> nat list) \<Rightarrow> (gvalue \<Rightarrow> yaml_node option) \<Rightarrow> low_obj \<Rightarrow> string \<Rightarrow> gvalue \<Rightarrow>
     go_panic + rendered" where
  "render srt enc low key NilV = Inr Skip"
| "render srt enc low key (StringV val) =
     Inr (if val = [] then Skip else Emit (CreateStringNode val))"
| "render srt enc low key (BoolV val) =
     Inr (if \<not> val then Skip else Emit (CreateBoolNode ''true''))"
| "render srt enc low key (MapV m) =
     (case collect low key
             (map (\<lambda>kv. (key_name (fst kv), render srt enc low (key_name (fst kv)) (snd kv)))
                  (case m of None \<Rightarrow> [] | Some kvs \<Rightarrow> kvs)) [] of
        Inl e \<Rightarrow> Inl e
      | Inr orderedCollection \<Rightarrow>
          (case attach_all (sort_Slice srt orderedCollection) CreateEmptyMapNode of
             Inl e \<Rightarrow> Inl e
           | Inr p \<Rightarrow> Inr (Emit p)))"
| "render srt enc low key (SliceV xs) =
     Inr (if xs = None then Skip
          else (case enc (SliceV xs) of None \<Rightarrow> Skip | Some rawNode \<Rightarrow> Emit rawNode))"
| "render srt enc low key (StructV zero vr) =
     (case vr of
        Some valueNode \<Rightarrow> Inr (Emit valueNode)
      | None \<Rightarrow> Inl (PanicMsg ''not supported yet''))"
| "render srt enc low key (PtrV isnil m) =
     (case m of
        Some MarshalNil \<Rightarrow> Inr Skip
      | Some (MarshalNode rawRender) \<Rightarrow> Inr (Emit rawRender)
      | Some MarshalOther \<Rightarrow> Inl (PanicMsg ''interface conversion: not *yaml.Node'')
      | Some MarshalPanic \<Rightarrow> Inl (PanicMsg ''MarshalYAML'')
      | None \<Rightarrow>
          Inr (case enc (PtrV isnil m) of None \<Rightarrow> Skip | Some rawNode \<Rightarrow> Emit rawNode))"
| "render srt enc low key (IntV i) =
     Inl (ReflectPanic ''call of reflect.Value.IsNil on int Value'')"
| "render srt enc low key (OtherV nilable isnil zero repr) =
     (if \<not> nilable then Inl (ReflectPanic ''call of reflect.Value.IsNil'')
      else if isnil then Inr Skip
      else Inr (case enc (OtherV nilable isnil zero repr) of
                  None \<Rightarrow> Skip | Some rawNode \<Rightarrow> Emit rawNode))"

definition AddYAMLNode ::
    "(int list \<Rightarrow> nat list) \<Rightarrow> (gvalue \<Rightarrow> yaml_node option) \<Rightarrow> low_obj \<Rightarrow>
     yaml_node \<Rightarrow> string \<Rightarrow> string \<Rightarrow> gvalue \<Rightarrow> go_panic + yaml_node" where
  "AddYAMLNode srt enc low parent tag key v =
     (case render srt enc low key v of
        Inl e \<Rightarrow> Inl e
      | Inr r \<Rightarrow> Inr (attach parent tag r))"

text \<open>
  \<^verbatim>\<open>Render()\<close>: the nodes are sorted by line, in place, and added to an empty mapping
  one after the other.
\<close>

fun add_nodes ::
    "(int list \<Rightarrow> nat list) \<Rightarrow> (gvalue \<Rightarrow> yaml_node option) \<Rightarrow> low_obj \<Rightarrow>
     gvalue NodeEntry list \<Rightarrow> yaml_node \<Rightarrow> go_panic + yaml_node" where
  "add_nodes srt enc low [] m = Inr m"
| "add_nodes srt enc low (node # rest) m =
     (case AddYAMLNode srt enc low m (Tag node) (Key node) (Value node) of
        Inl e \<Rightarrow> Inl e
      | Inr m' \<Rightarrow> add_nodes srt enc low rest m')"

definition Render ::
    "(int list \<Rightarrow> nat list) \<Rightarrow> (gvalue \<Rightarrow> yaml_node option) \<Rightarrow> NodeBuilder \<Rightarrow>
     go_panic + (NodeBuilder \<times> yaml_node)" where
  "Render srt enc n =
     (let n' = n\<lparr>Nodes := sort_Slice srt (Nodes n)\<rparr>
      in (case add_nodes srt enc (Low n') (Nodes n') CreateEmptyMapNode of
            Inl e \<Rightarrow> Inl e
          | Inr m \<Rightarrow> Inr (n', m)))"

text \<open>
  A high object renders itself by building a node builder over itself and its low
  object and rendering it (the \<^verbatim>\<open>MarshalYAML\<close> methods of the high objects do so).
\<close>

definition render_object ::
    "(int list \<Rightarrow> nat list) \<Rightarrow> (gvalue \<Rightarrow> yaml_node option) \<Rightarrow> hfield list \<Rightarrow> low_obj \<Rightarrow>
     go_panic + yaml_node" where
  "render_object srt enc high low =
     (case NewNodeBuilder high low of
        Inl e \<Rightarrow> Inl e
      | Inr nb \<Rightarrow> (case Render srt enc nb of Inl e \<Rightarrow> Inl e | Inr (nb', m) \<Rightarrow> Inr m))"

text \<open>The stable sort, as an arrangement of positions: insertion sort by line.\<close>

definition stable_srt :: "int list \<Rightarrow> nat list" where
  "stable_srt ks = sort_key (\<lambda>i. ks ! i) [0..<length ks]"

text \<open>
  \<^verbatim>\<open>add\<close> reads the high object through the field of the given name only, so two
  builders with the same nodes and low object, whose high objects hold the same field
  under that name, add the same.
\<close>

definition outcome :: "go_panic + NodeBuilder \<Rightarrow> go_panic + (gvalue NodeEntry list \<times> low_obj)" where
  "outcome r = (case r of Inl e \<Rightarrow> Inl e | Inr n \<Rightarrow> Inr (Nodes n, Low n))"

text \<open>What an entry adds to the mapping: its key node and its value node, or nothing.\<close>

definition emitted ::
    "(int list \<Rightarrow> nat list) \<Rightarrow> (gvalue \<Rightarrow> yaml_node option) \<Rightarrow> low_obj \<Rightarrow> gvalue NodeEntry \<Rightarrow>
     yaml_node list" where
  "emitted srt enc low e =
     (case render srt enc low (Key e) (Value e) of
        Inr (Emit valueNode) \<Rightarrow> [CreateStringNode (Tag e), valueNode]
      | _ \<Rightarrow> [])"

subsection \<open>Concrete objects\<close>

definition str_field :: "string \<Rightarrow> string \<Rightarrow> string \<Rightarrow> hfield" where
  "str_field name tag v = \<lparr>fName = name, fTag = tag, fValue = StringV v, fExported = True\<rparr>"

text \<open>
  A high object with a title read from line 3 of the document, and a summary set after
  parsing: the low object has the field, a node reference without a value node.
\<close>

definition edited_high :: "hfield list" where
  "edited_high = [str_field ''Title'' ''title'' ''t'', str_field ''Summary'' ''summary,omitempty'' ''s'']"

definition edited_low :: low_obj where
  "edited_low =
     LowObj [(''Title'', LowRef (Some (scalar ''t'' 3 8)) None),
             (''Summary'', LowRef None None)] None"

text \<open>A high object with zero-valued fields between two set ones.\<close>

definition sparse_high :: "hfield list" where
  "sparse_high =
     [str_field ''Title'' ''title'' ''t'',
      \<lparr>fName = ''Deprecated'', fTag = ''deprecated'', fValue = BoolV False, fExported = True\<rparr>,
      \<lparr>fName = ''MaxItems'', fTag = ''maxItems'', fValue = IntV 0, fExported = True\<rparr>,
      str_field ''Summary'' ''summary'' [],
      str_field ''Description'' ''description'' ''d'']"

text \<open>
  Thirteen fields, twelve of them set after parsing (line 0) and the seventh read from
  line 7; and a sorting function within the contract of \<^verbatim>\<open>sort.Slice\<close> that is not
  stable on their lines.
\<close>

definition thirteen_high :: "hfield list" where
  "thirteen_high =
     [str_field ''F0'' ''f0'' ''v'',
      str_field ''F1'' ''f1'' ''v'',
      str_field ''F2'' ''f2'' ''v'',
      str_field ''F3'' ''f3'' ''v'',
      str_field ''F4'' ''f4'' ''v'',
      str_field ''F5'' ''f5'' ''v'',
      str_field ''F6'' ''f6'' ''v'',
      str_field ''F7'' ''f7'' ''v'',
      str_field ''F8'' ''f8'' ''v'',
      str_field ''F9'' ''f9'' ''v'',
      str_field ''F10'' ''f10'' ''v'',
      str_field ''F11'' ''f11'' ''v'',
      str_field ''F12'' ''f12'' ''v'']"

definition thirteen_low :: low_obj where
  "thirteen_low =
     LowObj [(''F0'', LowRef None None),
        (''F1'', LowRef None None),
        (''F2'', LowRef None None),
        (''F3'', LowRef None None),
        (''F4'', LowRef None None),
        (''F5'', LowRef None None),
        (''F6'', LowRef (Some (scalar ''v'' 7 5)) None),
        (''F7'', LowRef None None),
        (''F8'', LowRef None None),
        (''F9'', LowRef None None),
        (''F10'', LowRef None None),
        (''F11'', LowRef None None),
        (''F12'', LowRef None None)] None"

definition thirteen_lines :: "int list" where
  "thirteen_lines = [0, 0, 0, 0, 0, 0, 7, 0, 0, 0, 0, 0, 0]"

definition unstable_srt :: "int list \<Rightarrow> nat list" where
  "unstable_srt ks =
     (if ks = thirteen_lines then [9, 1, 2, 3, 4, 5, 7, 8, 0, 10, 11, 12, 6] else stable_srt ks)"

section \<open>Parallel translate over a slice (package datamodel)\<close>

text \<open>
  Modelled from the spec: the function \<^verbatim>\<open>TranslateSliceParallel\<close> is not among the
  sources at hand, only its test is.  The spec: "given an input sequence of \<open>T\<close> and
  functions \<open>translate: (index, T) \<rightarrow> U | Continue | EndOfInput | Err\<close> and
  \<open>consume: U \<rightarrow> Ok | EndOfInput | Err\<close>, apply \<open>translate\<close> in parallel, preserving
  input order when delivering to \<open>consume\<close>.  \<open>Continue\<close>: translate returned no value
  for this element; skip delivery.  \<open>EndOfInput\<close>: translate or consume asks for early
  termination; return success.  \<open>Err\<close>: cancel remaining work, return the error."

  The parallel run is a sequence of events chosen by the scheduler: the translate call
  of some input returns (\<open>Finish i\<close>), or the consumer takes the next input in index
  order, if its translate call has returned (\<open>Deliver\<close>).  The state keeps the indices
  whose translate call has returned, in the order in which they returned; the number of
  inputs the consumer has dealt with; the values handed to \<open>consume\<close>, in order; and
  what the function has returned, once it has.  After the return nothing changes: the
  remaining work is cancelled.  \<open>consume\<close> is given the values it has seen before, since
  the functions of the test count their invocations.
\<close>

datatype 'u translated = Translated 'u | Continue | EndOfInput | TranslateErr go_error

datatype consume_result = Ok | ConsumeEndOfInput | ConsumeErr go_error

datatype event = Finish nat | Deliver

record 'u run_state =
  finished :: "nat list"
  delivered :: nat
  consumed :: "'u list"
  returned :: "go_error option option"

definition initial_state :: "'u run_state" where
  "initial_state = \<lparr>finished = [], delivered = 0, consumed = [], returned = None\<rparr>"

text \<open>
  Modelled from the spec: the translate call of input \<open>i\<close> returns.  An error cancels
  the remaining work and is returned; \<open>EndOfInput\<close> ends the run with success; a value
  or \<open>Continue\<close> waits for the consumer.
\<close>

definition finish ::
    "(nat \<Rightarrow> 't \<Rightarrow> 'u translated) \<Rightarrow> 't list \<Rightarrow> nat \<Rightarrow> 'u run_state \<Rightarrow> 'u run_state" where
  "finish translate inputs i st =
     (if i < length inputs \<and> i \<notin> set (finished st)
      then (let st' = st\<lparr>finished := finished st @ [i]\<rparr>
            in case translate i (inputs ! i) of
                 TranslateErr e \<Rightarrow> st'\<lparr>returned := Some (Some e)\<rparr>
               | EndOfInput \<Rightarrow> st'\<lparr>returned := Some None\<rparr>
               | _ \<Rightarrow> st')
      else st)"

text \<open>
  Modelled from the spec: the consumer takes the next input in index order, once its
  translate call has returned: a value is handed to \<open>consume\<close>, \<open>Continue\<close> is passed
  over.  When no input is left the function returns success.
\<close>

definition deliver ::
    "(nat \<Rightarrow> 't \<Rightarrow> 'u translated) \<Rightarrow> ('u list \<Rightarrow> 'u \<Rightarrow> consume_result) \<Rightarrow> 't list \<Rightarrow>
     'u run_state \<Rightarrow> 'u run_state" where
  "deliver translate consume inputs st =
     (if delivered st < length inputs
      then (if delivered st \<in> set (finished st)
            then (case translate (delivered st) (inputs ! delivered st) of
                    Translated u \<Rightarrow>
                      (let st' = st\<lparr>delivered := delivered st + 1, consumed := consumed st @ [u]\<rparr>
                       in case consume (consumed st) u of
                            Ok \<Rightarrow> st'
                          | ConsumeEndOfInput \<Rightarrow> st'\<lparr>returned := Some None\<rparr>
                          | ConsumeErr e \<Rightarrow> st'\<lparr>returned := Some (Some e)\<rparr>)
                  | Continue \<Rightarrow> st\<lparr>delivered := delivered st + 1\<rparr>
                  | _ \<Rightarrow> st)
            else st)
      else st\<lparr>returned := Some None\<rparr>)"

text \<open>Modelled from the spec: one event; after the return nothing happens.\<close>

definition step ::
    "(nat \<Rightarrow> 't \<Rightarrow> 'u translated) \<Rightarrow> ('u list \<Rightarrow> 'u \<Rightarrow> consume_result) \<Rightarrow> 't list \<Rightarrow>
     'u run_state \<Rightarrow> event \<Rightarrow> 'u run_state" where
  "step translate consume inputs st ev =
     (if returned st \<noteq> None then st
      else (case ev of
              Finish i \<Rightarrow> finish translate inputs i st
            | Deliver \<Rightarrow> deliver translate consume inputs st))"

text \<open>
  Modelled from the spec: \<^verbatim>\<open>TranslateSliceParallel(in, translate, consume)\<close> under the
  schedule \<open>sched\<close>; the field \<open>returned\<close> of the final state is what the function
  returns, \<open>None\<close> while it has not returned.
\<close>

definition TranslateSliceParallel ::
    "(nat \<Rightarrow> 't \<Rightarrow> 'u translated) \<Rightarrow> ('u list \<Rightarrow> 'u \<Rightarrow> consume_result) \<Rightarrow> 't list \<Rightarrow>
     event list \<Rightarrow> 'u run_state" where
  "TranslateSliceParallel translate consume inputs sched =
     foldl (step translate consume inputs) initial_state sched"

text \<open>The values of the first \<open>k\<close> inputs, in index order, those without a value left out.\<close>

definition translated_values :: "(nat \<Rightarrow> 't \<Rightarrow> 'u translated) \<Rightarrow> 't list \<Rightarrow> nat \<Rightarrow> 'u list" where
  "translated_values translate inputs k =
     concat (map (\<lambda>i. case translate i (inputs ! i) of Translated u \<Rightarrow> [u] | _ \<Rightarrow> []) [0..<k])"

text \<open>The functions of the test: "Happy path" and "Error in translate".\<close>

definition happy_translateFunc :: "nat \<Rightarrow> int \<Rightarrow> string translated" where
  "happy_translateFunc i v = Translated (''foobar '' @ FormatInt v)"

definition failing_translateFunc :: "nat \<Rightarrow> int \<Rightarrow> string translated" where
  "failing_translateFunc i v = TranslateErr (ErrorMsg ''Foobar'')"

definition counting_resultFunc :: "string list \<Rightarrow> string \<Rightarrow> consume_result" where
  "counting_resultFunc seen v = Ok"

text \<open>The invariant of a run.\<close>

definition run_inv ::
    "(nat \<Rightarrow> 't \<Rightarrow> 'u translated) \<Rightarrow> 't list \<Rightarrow> 'u run_state \<Rightarrow> bool" where
  "run_inv translate inputs st =
     (distinct (finished st)
      \<and> (\<forall>i \<in> set (finished st). i < length inputs)
      \<and> delivered st \<le> length inputs
      \<and> (\<forall>i < delivered st. i \<in> set (finished st))
      \<and> consumed st = translated_values translate inputs (delivered st)
      \<and> (\<forall>i \<in> set (finished st). \<forall>e. translate i (inputs ! i) = TranslateErr e
            \<longrightarrow> returned st = Some (Some e))
      \<and> (\<forall>i \<in> set (finished st). translate i (inputs ! i) = EndOfInput
            \<longrightarrow> returned st \<noteq> None))"

text \<open>On the happy path the function returns only when every input has been delivered.\<close>

definition happy :: "(nat \<Rightarrow> 't \<Rightarrow> 'u translated) \<Rightarrow> ('u list \<Rightarrow> 'u \<Rightarrow> consume_result) \<Rightarrow> 't list \<Rightarrow> bool" where
  "happy translate consume inputs =
     ((\<forall>i < length inputs. \<exists>u. translate i (inputs ! i) = Translated u)
      \<and> (\<forall>seen u. consume seen u = Ok))"

definition happy_inv :: "'t list \<Rightarrow> 'u run_state \<Rightarrow> bool" where
  "happy_inv inputs st =
     (returned st \<noteq> None \<longrightarrow> returned st = Some None \<and> delivered st = length inputs)"

section \<open>Properties of the string functions and the path utilities\<close>

lemma Index_split:
  "strings_Index s sep = Some m \<Longrightarrow> s = take m s @ sep @ drop (m + length sep) s"
proof (induction s arbitrary: m)
  case Nil
  then show ?case by (auto split: if_splits)
next
  case (Cons c cs)
  show ?case
  proof (cases "prefix sep (c # cs)")
    case True
    with Cons.prems have "m = 0" by simp
    with True show ?thesis by (auto simp: prefix_def)
  next
    case False
    with Cons.prems obtain k where k: "strings_Index cs sep = Some k" "m = Suc k" by auto
    from Cons.IH [OF k(1)] k(2) show ?thesis by simp
  qed
qed

lemma split_sep_not_Nil: "split_sep s sep \<noteq> []"
  by (subst split_sep.simps) (auto split: option.splits)

lemma Join_Cons: "ys \<noteq> [] \<Longrightarrow> Join (x # ys) sep = x @ sep @ Join ys sep"
  by (cases ys) auto

lemma Join_append:
  "xs \<noteq> [] \<Longrightarrow> ys \<noteq> [] \<Longrightarrow> Join (xs @ ys) sep = Join xs sep @ sep @ Join ys sep"
proof (induction xs)
  case Nil
  then show ?case by simp
next
  case (Cons x xs)
  show ?case
  proof (cases "xs = []")
    case True
    with Cons.prems show ?thesis by (simp add: Join_Cons)
  next
    case False
    with Cons show ?thesis by (simp add: Join_Cons)
  qed
qed

lemma Join_empty_sep: "Join xs [] = concat xs"
  by (induction xs "[] :: string" rule: Join.induct) auto

lemma Join_split_sep: "sep \<noteq> [] \<Longrightarrow> Join (split_sep s sep) sep = s"
proof (induction s sep rule: split_sep.induct)
  case (1 s sep)
  show ?case
  proof (cases "strings_Index s sep")
    case None
    then show ?thesis by (subst split_sep.simps) simp
  next
    case (Some m)
    with 1 have IH: "Join (split_sep (drop (m + length sep) s) sep) sep = drop (m + length sep) s"
      by simp
    have "Join (split_sep s sep) sep = take m s @ sep @ drop (m + length sep) s"
      using Some "1.prems" IH
      by (subst split_sep.simps) (simp add: Join_Cons split_sep_not_Nil)
    with Index_split [OF Some] show ?thesis by simp
  qed
qed

lemma concat_explode: "concat (explode s) = s"
proof (induction s rule: explode.induct)
  case (1 s)
  then show ?case by (subst explode.simps) auto
qed

lemma explode_Nil_iff: "explode s = [] \<longleftrightarrow> s = []"
  by (subst explode.simps) simp

lemma Split_Nil_iff: "Split s sep = [] \<longleftrightarrow> s = [] \<and> sep = []"
  by (simp add: Split_def explode_Nil_iff split_sep_not_Nil)

lemma Join_Split: "Join (Split s sep) sep = s"
  by (simp add: Split_def Join_split_sep Join_empty_sep concat_explode)

lemma Index_single_None: "strings_Index s [a] = None \<longleftrightarrow> a \<notin> set s"
  by (induction s) auto

lemma Index_single_Some:
  "strings_Index s [a] = Some m \<Longrightarrow> m < length s \<and> s ! m = a \<and> a \<notin> set (take m s)"
  by (induction s arbitrary: m) (auto split: if_splits)

lemma ReplaceAll_byte:
  "ReplaceAll s [a] [b] = map (\<lambda>c. if c = a then b else c) s"
proof -
  have "Join (split_sep s [a]) [b] = map (\<lambda>c. if c = a then b else c) s"
  proof (induction s "[a]" rule: split_sep.induct)
    case (1 s)
    show ?case
    proof (cases "strings_Index s [a]")
      case None
      then have "a \<notin> set s" by (simp add: Index_single_None)
      then have "map (\<lambda>c. if c = a then b else c) s = s" by (intro map_idI) auto
      with None show ?thesis by (subst split_sep.simps) simp
    next
      case (Some m)
      let ?f = "\<lambda>c. if c = a then b else c"
      from Index_single_Some [OF Some] have m: "m < length s" "s ! m = a" "a \<notin> set (take m s)"
        by auto
      from Index_split [OF Some] have s: "s = take m s @ [a] @ drop (Suc m) s" by simp
      from 1 Some have IH: "Join (split_sep (drop (Suc m) s) [a]) [b] = map ?f (drop (Suc m) s)"
        by simp
      from m(3) have t: "map ?f (take m s) = take m s" by (intro map_idI) auto
      have "map ?f s = map ?f (take m s) @ [b] @ map ?f (drop (Suc m) s)"
        by (subst s) simp
      with t have r: "map ?f s = take m s @ [b] @ map ?f (drop (Suc m) s)" by simp
      have "Join (split_sep s [a]) [b] = take m s @ [b] @ Join (split_sep (drop (Suc m) s) [a]) [b]"
        using Some by (subst split_sep.simps) (simp add: Join_Cons split_sep_not_Nil)
      with IH r show ?thesis by simp
    qed
  qed
  then show ?thesis by (simp add: ReplaceAll_def)
qed

lemma ReplaceWindowsDrive_total:
  "ReplaceWindowsDriveWithLinuxPath path =
     Inr ((if 1 < length path \<and> path ! 1 = CHR '':'' then drop 2 else id)
            (map (\<lambda>c. if c = backslash then CHR ''/'' else c) path))"
  by (simp add: ReplaceWindowsDriveWithLinuxPath_def ReplaceAll_byte slice_from_def)

text \<open>
  Claim C8.  \<open>ReplaceWindowsDriveWithLinuxPath\<close> never panics; its result holds no
  backslash: it is the path with every backslash byte replaced by a forward slash, and,
  when the second byte of the path is a colon, without its first two bytes.  So
  \<^verbatim>\<open>C:\foo\<close> becomes \<^verbatim>\<open>/foo\<close>.
\<close>

theorem ReplaceWindowsDrive_forward_slashes:
  "(\<exists>r. ReplaceWindowsDriveWithLinuxPath path = Inr r \<and> backslash \<notin> set r \<and>
        r = (if 1 < length path \<and> path ! 1 = CHR '':''
             then drop 2 (map (\<lambda>c. if c = backslash then CHR ''/'' else c) path)
             else map (\<lambda>c. if c = backslash then CHR ''/'' else c) path)) \<and>
   ReplaceWindowsDriveWithLinuxPath (''C:'' @ [backslash] @ ''foo'') = Inr ''/foo''"
proof -
  let ?f = "\<lambda>c. if c = backslash then CHR ''/'' else c"
  have nb: "backslash \<notin> set (map ?f path)" by (auto simp: backslash_def)
  then have "backslash \<notin> set (drop 2 (map ?f path))" by (meson in_set_dropD)
  with nb have 1: "\<exists>r. ReplaceWindowsDriveWithLinuxPath path = Inr r \<and> backslash \<notin> set r \<and>
        r = (if 1 < length path \<and> path ! 1 = CHR '':''
             then drop 2 (map ?f path) else map ?f path)"
    by (simp add: ReplaceWindowsDrive_total)
  have 2: "ReplaceWindowsDriveWithLinuxPath (''C:'' @ [backslash] @ ''foo'') = Inr ''/foo''"
    by (simp add: ReplaceWindowsDrive_total backslash_def)
  from 1 2 show ?thesis by blast
qed

lemma CheckPathOverlap_ok:
  assumes "sep \<noteq> [] \<or> (pathA \<noteq> [] \<and> pathB \<noteq> [])"
  shows "CheckPathOverlap pathA pathB sep =
           Inr (Join (Split pathA sep @
                  (if last (Split pathA sep) = hd (Split pathB sep)
                   then tl (Split pathB sep) else Split pathB sep)) sep)"
  using assms by (auto simp: CheckPathOverlap_def Let_def Split_Nil_iff)

lemma Join_tl: "b \<noteq> [] \<Longrightarrow> Join b sep = hd b @ (if tl b = [] then [] else sep @ Join (tl b) sep)"
  by (cases b) (auto simp: Join_Cons)

text \<open>
  Claim C10, amended.  When the separator is not empty, or both paths are not empty,
  \<open>CheckPathOverlap\<close> returns the segments of \<open>pathA\<close> followed by those of
  \<open>pathB\<close>, joined by \<open>sep\<close>; when the last segment of \<open>pathA\<close> equals the first
  segment of \<open>pathB\<close> that segment appears once (the result is \<open>pathA\<close> followed by
  \<open>pathB\<close> without its first segment), and when they differ the result is
  \<open>pathA @ sep @ pathB\<close>.
\<close>

theorem CheckPathOverlap_segments:
  assumes "sep \<noteq> [] \<or> (pathA \<noteq> [] \<and> pathB \<noteq> [])"
  shows "CheckPathOverlap pathA pathB sep =
           Inr (if last (Split pathA sep) = hd (Split pathB sep)
                then Join (Split pathA sep @ tl (Split pathB sep)) sep
                else pathA @ sep @ pathB)
         \<and> (last (Split pathA sep) = hd (Split pathB sep) \<longrightarrow>
              CheckPathOverlap pathA pathB sep =
                Inr (pathA @ drop (length (hd (Split pathB sep))) pathB))"
proof -
  let ?a = "Split pathA sep" and ?b = "Split pathB sep"
  from assms have a: "?a \<noteq> []" and b: "?b \<noteq> []" by (auto simp: Split_Nil_iff)
  have diff: "Join (?a @ ?b) sep = pathA @ sep @ pathB"
    using a b by (simp add: Join_append Join_Split)
  have B: "pathB = hd ?b @ (if tl ?b = [] then [] else sep @ Join (tl ?b) sep)"
    using Join_tl [OF b, of sep] by (simp add: Join_Split)
  have "drop (length (hd ?b)) pathB = (if tl ?b = [] then [] else sep @ Join (tl ?b) sep)"
    by (subst B) simp
  moreover have "Join (?a @ tl ?b) sep = pathA @ (if tl ?b = [] then [] else sep @ Join (tl ?b) sep)"
    using a by (simp add: Join_append Join_Split)
  ultimately have eq: "Join (?a @ tl ?b) sep = pathA @ drop (length (hd ?b)) pathB" by simp
  show ?thesis
    using CheckPathOverlap_ok [OF assms] diff eq by simp
qed

theorem CheckPathOverlap_segments_witness:
  "''/'' \<noteq> [] \<and> CheckPathOverlap ''a/b'' ''b/c'' ''/'' = Inr ''a/b/c''
   \<and> CheckPathOverlap ''a/b'' ''c/d'' ''/'' = Inr ''a/b/c/d''"
proof -
  have s1: "Split ''a/b'' ''/'' = [''a'', ''b'']" by (simp add: Split_def split_sep.simps)
  have s2: "Split ''b/c'' ''/'' = [''b'', ''c'']" by (simp add: Split_def split_sep.simps)
  have s3: "Split ''c/d'' ''/'' = [''c'', ''d'']" by (simp add: Split_def split_sep.simps)
  show ?thesis
    using CheckPathOverlap_segments [of "''/''" "''a/b''" "''b/c''"] CheckPathOverlap_segments [of "''/''" "''a/b''" "''c/d''"]
    by (simp add: s1 s2 s3)
qed

text \<open>
  Claim C10 as stated ("for every \<open>pathA\<close>, \<open>pathB\<close> and \<open>sep\<close>") fails: with an empty
  separator an empty path splits into the empty slice, and indexing it panics.
\<close>

theorem CheckPathOverlap_empty_sep_panics:
  "CheckPathOverlap [] ''b'' [] = Inl (IndexOutOfRange (- 1) 0)"
  by (simp add: CheckPathOverlap_def Split_def explode.simps)

lemma CheckPathOverlap_panics_iff:
  "(\<exists>e. CheckPathOverlap pathA pathB sep = Inl e) \<longleftrightarrow> sep = [] \<and> (pathA = [] \<or> pathB = [])"
  by (auto simp: CheckPathOverlap_def Let_def Split_Nil_iff)

section \<open>Properties of the document creation\<close>












































lemmas example_defs =
  example_deps_def example_FindKeyNodeFull_def example_FindKeyNodeFullTop_def
  example_index_config_def scalar_def mapping_def sequence_def document_def
  minimal_document_def versionless_document_def odd_sections_document_def default_config_def
  OpenAPILabel_def InfoLabel_def ServersLabel_def TagsLabel_def ComponentsLabel_def
  SecurityLabel_def ExternalDocsLabel_def PathsLabel_def WebhooksLabel_def
  JSONSchemaDialectLabel_def

lemma example_versionless:
  "createDocument example_deps extractionFuncs versionless_document (Some default_config)
     = Inr (None, Some MissingVersion)"
  by (simp add: createDocument_def example_defs)







lemma servers_loop_eq:
  "servers_loop deps ln idx ns acc =
     acc @ map (\<lambda>n. \<lparr>vrValue = BuildServer deps ln n idx, vrValueNode = Some n\<rparr>)
               (filter (IsNodeMap deps) ns)"
  by (induction ns arbitrary: acc) auto

lemma servers_loop_30_eq:
  "servers_loop_30 deps idx ns acc =
     acc @ map (\<lambda>n. \<lparr>vrValue = BuildServer_30 deps n idx, vrValueNode = Some n\<rparr>)
               (filter (IsNodeMap deps) ns)"
  by (induction ns arbitrary: acc) auto

lemma tags_loop_Inr:
  "tags_loop deps ln idx ns acc = Inr tags \<Longrightarrow>
   \<exists>new. tags = acc @ new \<and>
         list_all2 (\<lambda>t n. vrValueNode t = Some n \<and> BuildTag deps ln n idx = Inr (vrValue t))
           new (filter (IsNodeMap deps) ns)"
proof (induction ns arbitrary: acc)
  case Nil
  then show ?case by simp
next
  case (Cons n ns)
  show ?case
  proof (cases "IsNodeMap deps n")
    case False
    with Cons show ?thesis by simp
  next
    case True
    with Cons.prems obtain tag where b: "BuildTag deps ln n idx = Inr tag"
      and rest: "tags_loop deps ln idx ns (acc @ [\<lparr>vrValue = tag, vrValueNode = Some n\<rparr>]) = Inr tags"
      by (auto split: sum.splits)
    from Cons.IH [OF rest] obtain new where
      new: "tags = (acc @ [\<lparr>vrValue = tag, vrValueNode = Some n\<rparr>]) @ new"
        "list_all2 (\<lambda>t n. vrValueNode t = Some n \<and> BuildTag deps ln n idx = Inr (vrValue t))
           new (filter (IsNodeMap deps) ns)" by blast
    have "tags = acc @ (\<lparr>vrValue = tag, vrValueNode = Some n\<rparr> # new)" using new(1) by simp
    moreover have "list_all2 (\<lambda>t n. vrValueNode t = Some n \<and> BuildTag deps ln n idx = Inr (vrValue t))
           (\<lparr>vrValue = tag, vrValueNode = Some n\<rparr> # new) (filter (IsNodeMap deps) (n # ns))"
      using True b new(2) by simp
    ultimately show ?thesis by blast
  qed
qed

lemma tags_loop_Inl:
  "tags_loop deps ln idx ns acc = Inl err \<Longrightarrow>
   \<exists>n \<in> set ns. IsNodeMap deps n \<and> BuildTag deps ln n idx = Inl err"
  by (induction ns arbitrary: acc) (auto split: if_splits sum.splits)

lemma tags_loop_30_Inr:
  "tags_loop_30 deps idx ns acc = Inr tags \<Longrightarrow>
   \<exists>new. tags = acc @ new \<and>
         list_all2 (\<lambda>t n. vrValueNode t = Some n \<and> BuildTag_30 deps n idx = Inr (vrValue t))
           new (filter (IsNodeMap deps) ns)"
proof (induction ns arbitrary: acc)
  case Nil
  then show ?case by simp
next
  case (Cons n ns)
  show ?case
  proof (cases "IsNodeMap deps n")
    case False
    with Cons show ?thesis by simp
  next
    case True
    with Cons.prems obtain tag where b: "BuildTag_30 deps n idx = Inr tag"
      and rest: "tags_loop_30 deps idx ns (acc @ [\<lparr>vrValue = tag, vrValueNode = Some n\<rparr>]) = Inr tags"
      by (auto split: sum.splits)
    from Cons.IH [OF rest] obtain new where
      new: "tags = (acc @ [\<lparr>vrValue = tag, vrValueNode = Some n\<rparr>]) @ new"
        "list_all2 (\<lambda>t n. vrValueNode t = Some n \<and> BuildTag_30 deps n idx = Inr (vrValue t))
           new (filter (IsNodeMap deps) ns)" by blast
    have "tags = acc @ (\<lparr>vrValue = tag, vrValueNode = Some n\<rparr> # new)" using new(1) by simp
    moreover have "list_all2 (\<lambda>t n. vrValueNode t = Some n \<and> BuildTag_30 deps n idx = Inr (vrValue t))
           (\<lparr>vrValue = tag, vrValueNode = Some n\<rparr> # new) (filter (IsNodeMap deps) (n # ns))"
      using True b new(2) by simp
    ultimately show ?thesis by blast
  qed
qed

lemma tags_loop_30_Inl:
  "tags_loop_30 deps idx ns acc = Inl err \<Longrightarrow>
   \<exists>n \<in> set ns. IsNodeMap deps n \<and> BuildTag_30 deps n idx = Inl err"
  by (induction ns arbitrary: acc) (auto split: if_splits sum.splits)

lemma extractServers_cases:
  assumes "root_content0 info = Inr m"
    and "FindKeyNodeFull deps ServersLabel (yContent m) = (k, ln, Some vn)"
  shows "extractServers deps info doc idx =
           (if IsNodeArray deps vn
            then Inr (doc\<lparr>Servers := Some
                        \<lparr>nrValue = map (\<lambda>n. \<lparr>vrValue = BuildServer deps ln n idx, vrValueNode = Some n\<rparr>)
                                       (filter (IsNodeMap deps) (yContent vn)),
                         nrKeyNode = ln, nrValueNode = Some vn\<rparr>\<rparr>, None)
            else Inr (doc, None))"
  using assms by (simp add: extractServers_def servers_loop_eq)

lemma extractServers_30_cases:
  assumes "root_content info = Inr content"
    and "FindKeyNodeFull deps ServersLabel content = (k, ln, Some vn)"
  shows "extractServers_30 deps info doc idx =
           (if IsNodeArray deps vn
            then Inr (doc\<lparr>Servers_30 := Some
                        \<lparr>nrValue = map (\<lambda>n. \<lparr>vrValue = BuildServer_30 deps n idx, vrValueNode = Some n\<rparr>)
                                       (filter (IsNodeMap deps) (yContent vn)),
                         nrKeyNode = ln, nrValueNode = Some vn\<rparr>\<rparr>, None)
            else Inr (doc, None))"
  using assms by (simp add: extractServers_30_def servers_loop_30_eq)

lemma extractTags_cases:
  assumes "root_content0 info = Inr m"
    and "FindKeyNodeFull deps TagsLabel (yContent m) = (k, ln, Some vn)"
  shows "(\<not> IsNodeArray deps vn \<longrightarrow> extractTags deps info doc idx = Inr (doc, None))
       \<and> (IsNodeArray deps vn \<longrightarrow>
            (\<exists>tags. extractTags deps info doc idx =
                      Inr (doc\<lparr>Tags := Some \<lparr>nrValue = tags, nrKeyNode = ln, nrValueNode = Some vn\<rparr>\<rparr>, None)
                  \<and> list_all2 (\<lambda>t n. vrValueNode t = Some n \<and> BuildTag deps ln n idx = Inr (vrValue t))
                       tags (filter (IsNodeMap deps) (yContent vn)))
          \<or> (\<exists>err. extractTags deps info doc idx = Inr (doc, Some err)
                  \<and> (\<exists>n \<in> set (yContent vn). IsNodeMap deps n \<and> BuildTag deps ln n idx = Inl err)))"
proof (cases "tags_loop deps ln idx (yContent vn) []")
  case (Inl err)
  from tags_loop_Inl [OF Inl] Inl assms show ?thesis
    by (auto simp: extractTags_def)
next
  case (Inr tags)
  from tags_loop_Inr [OF Inr] Inr assms show ?thesis
    by (auto simp: extractTags_def)
qed

lemma extractTags_30_cases:
  assumes "root_content info = Inr content"
    and "FindKeyNodeFull deps TagsLabel content = (k, ln, Some vn)"
  shows "(\<not> IsNodeArray deps vn \<longrightarrow> extractTags_30 deps info doc idx = Inr (doc, None))
       \<and> (IsNodeArray deps vn \<longrightarrow>
            (\<exists>tags. extractTags_30 deps info doc idx =
                      Inr (doc\<lparr>Tags_30 := Some \<lparr>nrValue = tags, nrKeyNode = ln, nrValueNode = Some vn\<rparr>\<rparr>, None)
                  \<and> list_all2 (\<lambda>t n. vrValueNode t = Some n \<and> BuildTag_30 deps n idx = Inr (vrValue t))
                       tags (filter (IsNodeMap deps) (yContent vn)))
          \<or> (\<exists>err. extractTags_30 deps info doc idx = Inr (doc, Some err)
                  \<and> (\<exists>n \<in> set (yContent vn). IsNodeMap deps n \<and> BuildTag_30 deps n idx = Inl err)))"
proof (cases "tags_loop_30 deps idx (yContent vn) []")
  case (Inl err)
  from tags_loop_30_Inl [OF Inl] Inl assms show ?thesis
    by (auto simp: extractTags_30_def)
next
  case (Inr tags)
  from tags_loop_30_Inr [OF Inr] Inr assms show ?thesis
    by (auto simp: extractTags_30_def)
qed

text \<open>
  Claim C7.  When the look-up of \<open>servers\<close> (of \<open>tags\<close>) finds a value node that is
  not an array, \<open>extractServers\<close> (\<open>extractTags\<close>) returns the document unchanged and
  no error.  When the node is an array, \<open>extractServers\<close> sets \<open>Servers\<close> to the
  servers built from the mapping items of the array, in their order, and nothing else;
  \<open>extractTags\<close> does the same with the tags, unless the build of a mapping item
  fails, in which case it returns that error and the document unchanged.  The same holds
  for the two functions of low/3.0, which look the key up among the children of the root
  node.
\<close>

theorem extract_servers_tags_shape:
  assumes "RootNode info = Some root" and "yContent root = m # rest"
  shows "(\<forall>k ln vn. FindKeyNodeFull deps ServersLabel (yContent m) = (k, ln, Some vn) \<longrightarrow>
            (\<not> IsNodeArray deps vn \<longrightarrow> extractServers deps info doc idx = Inr (doc, None))
          \<and> (IsNodeArray deps vn \<longrightarrow>
               extractServers deps info doc idx =
                 Inr (doc\<lparr>Servers := Some
                        \<lparr>nrValue = map (\<lambda>n. \<lparr>vrValue = BuildServer deps ln n idx, vrValueNode = Some n\<rparr>)
                                       (filter (IsNodeMap deps) (yContent vn)),
                         nrKeyNode = ln, nrValueNode = Some vn\<rparr>\<rparr>, None)))
       \<and> (\<forall>k ln vn. FindKeyNodeFull deps TagsLabel (yContent m) = (k, ln, Some vn) \<longrightarrow>
            (\<not> IsNodeArray deps vn \<longrightarrow> extractTags deps info doc idx = Inr (doc, None))
          \<and> (IsNodeArray deps vn \<longrightarrow>
               (\<exists>tags. extractTags deps info doc idx =
                         Inr (doc\<lparr>Tags := Some \<lparr>nrValue = tags, nrKeyNode = ln,
                                                nrValueNode = Some vn\<rparr>\<rparr>, None)
                     \<and> list_all2 (\<lambda>t n. vrValueNode t = Some n \<and> BuildTag deps ln n idx = Inr (vrValue t))
                          tags (filter (IsNodeMap deps) (yContent vn)))
             \<or> (\<exists>err. extractTags deps info doc idx = Inr (doc, Some err)
                     \<and> (\<exists>n \<in> set (yContent vn). IsNodeMap deps n \<and> BuildTag deps ln n idx = Inl err))))
       \<and> (\<forall>k ln vn. FindKeyNodeFull deps ServersLabel (yContent root) = (k, ln, Some vn) \<longrightarrow>
            (\<not> IsNodeArray deps vn \<longrightarrow> extractServers_30 deps info doc_30 idx = Inr (doc_30, None))
          \<and> (IsNodeArray deps vn \<longrightarrow>
               extractServers_30 deps info doc_30 idx =
                 Inr (doc_30\<lparr>Servers_30 := Some
                        \<lparr>nrValue = map (\<lambda>n. \<lparr>vrValue = BuildServer_30 deps n idx, vrValueNode = Some n\<rparr>)
                                       (filter (IsNodeMap deps) (yContent vn)),
                         nrKeyNode = ln, nrValueNode = Some vn\<rparr>\<rparr>, None)))
       \<and> (\<forall>k ln vn. FindKeyNodeFull deps TagsLabel (yContent root) = (k, ln, Some vn) \<longrightarrow>
            (\<not> IsNodeArray deps vn \<longrightarrow> extractTags_30 deps info doc_30 idx = Inr (doc_30, None))
          \<and> (IsNodeArray deps vn \<longrightarrow>
               (\<exists>tags. extractTags_30 deps info doc_30 idx =
                         Inr (doc_30\<lparr>Tags_30 := Some \<lparr>nrValue = tags, nrKeyNode = ln,
                                                      nrValueNode = Some vn\<rparr>\<rparr>, None)
                     \<and> list_all2 (\<lambda>t n. vrValueNode t = Some n \<and> BuildTag_30 deps n idx = Inr (vrValue t))
                          tags (filter (IsNodeMap deps) (yContent vn)))
             \<or> (\<exists>err. extractTags_30 deps info doc_30 idx = Inr (doc_30, Some err)
                     \<and> (\<exists>n \<in> set (yContent vn). IsNodeMap deps n \<and> BuildTag_30 deps n idx = Inl err))))"
proof -
  have r0: "root_content0 info = Inr m"
    using assms by (simp add: root_content0_def root_content_def)
  have rc: "root_content info = Inr (yContent root)"
    using assms by (simp add: root_content_def)
  have 1: "\<forall>k ln vn. FindKeyNodeFull deps ServersLabel (yContent m) = (k, ln, Some vn) \<longrightarrow>
            (\<not> IsNodeArray deps vn \<longrightarrow> extractServers deps info doc idx = Inr (doc, None))
          \<and> (IsNodeArray deps vn \<longrightarrow>
               extractServers deps info doc idx =
                 Inr (doc\<lparr>Servers := Some
                        \<lparr>nrValue = map (\<lambda>n. \<lparr>vrValue = BuildServer deps ln n idx, vrValueNode = Some n\<rparr>)
                                       (filter (IsNodeMap deps) (yContent vn)),
                         nrKeyNode = ln, nrValueNode = Some vn\<rparr>\<rparr>, None))"
    by (simp add: extractServers_cases [OF r0])
  have 3: "\<forall>k ln vn. FindKeyNodeFull deps ServersLabel (yContent root) = (k, ln, Some vn) \<longrightarrow>
            (\<not> IsNodeArray deps vn \<longrightarrow> extractServers_30 deps info doc_30 idx = Inr (doc_30, None))
          \<and> (IsNodeArray deps vn \<longrightarrow>
               extractServers_30 deps info doc_30 idx =
                 Inr (doc_30\<lparr>Servers_30 := Some
                        \<lparr>nrValue = map (\<lambda>n. \<lparr>vrValue = BuildServer_30 deps n idx, vrValueNode = Some n\<rparr>)
                                       (filter (IsNodeMap deps) (yContent vn)),
                         nrKeyNode = ln, nrValueNode = Some vn\<rparr>\<rparr>, None))"
    by (simp add: extractServers_30_cases [OF rc])
  from 1 3 extractTags_cases [OF r0, of deps _ _ _ doc idx]
    extractTags_30_cases [OF rc, of deps _ _ _ doc_30 idx]
  show ?thesis by blast
qed

text \<open>
  An instance: \<open>servers\<close> holds a scalar and is passed over; \<open>tags\<close> holds a sequence
  of a mapping, a scalar and a mapping, and the two mappings are built.
\<close>

theorem extract_servers_tags_shape_witness:
  "extractServers example_deps odd_sections_document
      (new_Document \<lparr>nrValue = ''3.0.0'', nrKeyNode = None, nrValueNode = None\<rparr>) ''index''
     = Inr (new_Document \<lparr>nrValue = ''3.0.0'', nrKeyNode = None, nrValueNode = None\<rparr>, None)
   \<and> (\<exists>tags. extractTags example_deps odd_sections_document
                (new_Document \<lparr>nrValue = ''3.0.0'', nrKeyNode = None, nrValueNode = None\<rparr>) ''index''
              = Inr ((new_Document \<lparr>nrValue = ''3.0.0'', nrKeyNode = None, nrValueNode = None\<rparr>)
                       \<lparr>Tags := Some \<lparr>nrValue = tags, nrKeyNode = Some (scalar ''tags'' 3 1),
                          nrValueNode = Some (sequence 4 3
                            [mapping 4 5 [scalar ''name'' 4 5, scalar ''a'' 4 11],
                             scalar ''stray'' 5 5,
                             mapping 6 5 [scalar ''name'' 6 5, scalar ''b'' 6 11]])\<rparr>\<rparr>, None)
            \<and> map vrValueNode tags =
                [Some (mapping 4 5 [scalar ''name'' 4 5, scalar ''a'' 4 11]),
                 Some (mapping 6 5 [scalar ''name'' 6 5, scalar ''b'' 6 11])])"
proof -
  let ?info = odd_sections_document
  let ?doc = "new_Document \<lparr>nrValue = ''3.0.0'', nrKeyNode = None, nrValueNode = None\<rparr> :: string Document"
  let ?m = "mapping 1 1
       [scalar ''openapi'' 1 1, scalar ''3.0.0'' 1 10,
        scalar ''servers'' 2 1, scalar ''none'' 2 10,
        scalar ''tags'' 3 1,
        sequence 4 3
          [mapping 4 5 [scalar ''name'' 4 5, scalar ''a'' 4 11],
           scalar ''stray'' 5 5,
           mapping 6 5 [scalar ''name'' 6 5, scalar ''b'' 6 11]]]"
  let ?seq = "sequence 4 3
          [mapping 4 5 [scalar ''name'' 4 5, scalar ''a'' 4 11],
           scalar ''stray'' 5 5,
           mapping 6 5 [scalar ''name'' 6 5, scalar ''b'' 6 11]]"
  have r: "RootNode ?info = Some (YNode DocumentNode [] [] 1 1 [?m])"
    by (simp add: odd_sections_document_def document_def)
  have c: "yContent (YNode DocumentNode [] [] 1 1 [?m]) = ?m # []" by simp
  note T = extract_servers_tags_shape [OF r c, of example_deps ?doc "''index''"]
  have s: "FindKeyNodeFull example_deps ServersLabel (yContent ?m)
             = (Some (scalar ''servers'' 2 1), Some (scalar ''servers'' 2 1), Some (scalar ''none'' 2 10))"
    by (simp add: example_defs)
  have sn: "\<not> IsNodeArray example_deps (scalar ''none'' 2 10)"
    by (simp add: example_defs)
  have t: "FindKeyNodeFull example_deps TagsLabel (yContent ?m)
             = (Some (scalar ''tags'' 3 1), Some (scalar ''tags'' 3 1), Some ?seq)"
    by (simp add: example_defs)
  have ta: "IsNodeArray example_deps ?seq" by (simp add: example_defs)
  have noerr: "\<not> (\<exists>n \<in> set (yContent ?seq). \<exists>err. IsNodeMap example_deps n \<and>
                  BuildTag example_deps (Some (scalar ''tags'' 3 1)) n ''index'' = Inl err)"
    by (simp add: example_defs)
  have flt: "filter (IsNodeMap example_deps) (yContent ?seq) =
               [mapping 4 5 [scalar ''name'' 4 5, scalar ''a'' 4 11],
                mapping 6 5 [scalar ''name'' 6 5, scalar ''b'' 6 11]]"
    by (simp add: example_defs)
  from T s sn have 1: "extractServers example_deps ?info ?doc ''index'' = Inr (?doc, None)"
    by blast
  from T t ta have "(\<exists>tags. extractTags example_deps ?info ?doc ''index'' =
                         Inr (?doc\<lparr>Tags := Some \<lparr>nrValue = tags, nrKeyNode = Some (scalar ''tags'' 3 1),
                                                nrValueNode = Some ?seq\<rparr>\<rparr>, None)
                     \<and> list_all2 (\<lambda>t n. vrValueNode t = Some n \<and>
                            BuildTag example_deps (Some (scalar ''tags'' 3 1)) n ''index'' = Inr (vrValue t))
                          tags (filter (IsNodeMap example_deps) (yContent ?seq)))
             \<or> (\<exists>err. extractTags example_deps ?info ?doc ''index'' = Inr (?doc, Some err)
                     \<and> (\<exists>n \<in> set (yContent ?seq). IsNodeMap example_deps n \<and>
                           BuildTag example_deps (Some (scalar ''tags'' 3 1)) n ''index'' = Inl err))"
    by blast
  with noerr obtain tags where tags:
    "extractTags example_deps ?info ?doc ''index'' =
        Inr (?doc\<lparr>Tags := Some \<lparr>nrValue = tags, nrKeyNode = Some (scalar ''tags'' 3 1),
                               nrValueNode = Some ?seq\<rparr>\<rparr>, None)"
    "list_all2 (\<lambda>t n. vrValueNode t = Some n \<and>
         BuildTag example_deps (Some (scalar ''tags'' 3 1)) n ''index'' = Inr (vrValue t))
       tags (filter (IsNodeMap example_deps) (yContent ?seq))"
    by blast
  from tags(2) have "map vrValueNode tags =
      [Some (mapping 4 5 [scalar ''name'' 4 5, scalar ''a'' 4 11]),
       Some (mapping 6 5 [scalar ''name'' 6 5, scalar ''b'' 6 11])]"
    unfolding flt by (auto simp: list_all2_Cons2)
  with tags(1) have 2: "\<exists>tags. extractTags example_deps ?info ?doc ''index'' =
        Inr (?doc\<lparr>Tags := Some \<lparr>nrValue = tags, nrKeyNode = Some (scalar ''tags'' 3 1),
                               nrValueNode = Some ?seq\<rparr>\<rparr>, None)
      \<and> map vrValueNode tags =
      [Some (mapping 4 5 [scalar ''name'' 4 5, scalar ''a'' 4 11]),
       Some (mapping 6 5 [scalar ''name'' 6 5, scalar ''b'' 6 11])]"
    by (intro exI [of _ tags] conjI)
  show ?thesis
    by (rule conjI [OF 1 2])
qed

section \<open>Properties of the node builder\<close>

lemma stable_srt_contract: "sort_contract stable_srt"
  by (simp add: sort_contract_def stable_srt_def)

lemma sort_Slice_lines:
  assumes "sort_contract srt"
  shows "map Line (sort_Slice srt xs) = map (\<lambda>i. map Line xs ! i) (srt (map Line xs))"
proof -
  from assms have "mset (srt (map Line xs)) = mset [0..<length (map Line xs)]"
    by (simp add: sort_contract_def)
  then have "set (srt (map Line xs)) = {0..<length xs}"
    by (metis atLeastLessThan_upt length_map mset_eq_setD)
  then show ?thesis
    by (auto simp: sort_Slice_def)
qed

lemma sort_Slice_sorted:
  assumes "sort_contract srt"
  shows "sorted (map Line (sort_Slice srt xs))"
  using assms sort_Slice_lines [OF assms, of xs] by (simp add: sort_contract_def)

lemma sort_Slice_mset:
  assumes "sort_contract srt"
  shows "mset (sort_Slice srt xs) = mset xs"
proof -
  from assms have "mset (srt (map Line xs)) = mset [0..<length xs]"
    by (simp add: sort_contract_def)
  then have "image_mset (\<lambda>i. xs ! i) (mset (srt (map Line xs)))
               = image_mset (\<lambda>i. xs ! i) (mset [0..<length xs])" by simp
  then have "mset (map (\<lambda>i. xs ! i) (srt (map Line xs))) = mset (map (\<lambda>i. xs ! i) [0..<length xs])"
    by simp
  then show ?thesis by (simp add: sort_Slice_def map_nth)
qed

text \<open>A zero-valued field adds no entry.\<close>

lemma add_zero:
  assumes "find (\<lambda>f. fName f = key) (High n) = Some field"
    and "fValue field = NilV \<or> IsZero (fValue field)"
    and "fExported field" and "key \<noteq> []"
    and "key = ''Extensions'' \<longrightarrow> fValue field = MapV None"
  shows "add n key = Inr n"
proof (cases key)
  case Nil
  with assms(4) show ?thesis by simp
next
  case (Cons c cs)
  show ?thesis
  proof (cases "key = ''Extensions''")
    case True
    with assms Cons show ?thesis by (simp add: add_def)
  next
    case False
    with assms Cons show ?thesis by (auto simp: add_def Let_def)
  qed
qed

lemma add_outcome:
  assumes "Nodes n1 = Nodes n2" and "Low n1 = Low n2"
    and "find (\<lambda>f. fName f = key) (High n1) = find (\<lambda>f. fName f = key) (High n2)"
  shows "outcome (add n1 key) = outcome (add n2 key)"
  using assms
  by (auto simp: add_def outcome_def Let_def split: list.splits option.splits gvalue.splits sum.splits)

lemma add_keeps_High_Low:
  "add n key = Inr n' \<Longrightarrow> High n' = High n \<and> Low n' = Low n"
  by (auto simp: add_def Let_def split: list.splits option.splits gvalue.splits sum.splits if_splits)

lemma add_fields_outcome:
  assumes "Nodes n1 = Nodes n2" and "Low n1 = Low n2"
    and "\<forall>key \<in> set names. find (\<lambda>f. fName f = key) (High n1) = find (\<lambda>f. fName f = key) (High n2)"
  shows "outcome (add_fields n1 names) = outcome (add_fields n2 names)"
  using assms
proof (induction names arbitrary: n1 n2)
  case Nil
  then show ?case by (simp add: outcome_def)
next
  case (Cons key names)
  from Cons.prems have o: "outcome (add n1 key) = outcome (add n2 key)"
    by (intro add_outcome) auto
  show ?case
  proof (cases "add n1 key")
    case (Inl e)
    with o have "add n2 key = Inl e" by (auto simp: outcome_def split: sum.splits)
    with Inl show ?thesis by (simp add: outcome_def)
  next
    case (Inr m1)
    with o obtain m2 where m2: "add n2 key = Inr m2" "Nodes m1 = Nodes m2" "Low m1 = Low m2"
      by (auto simp: outcome_def split: sum.splits)
    from add_keeps_High_Low [OF Inr] add_keeps_High_Low [OF m2(1)] Cons.prems(3)
    have "\<forall>key \<in> set names. find (\<lambda>f. fName f = key) (High m1) = find (\<lambda>f. fName f = key) (High m2)"
      by simp
    from Cons.IH [OF m2(2,3) this] Inr m2(1) show ?thesis by simp
  qed
qed

lemma find_other:
  "key \<noteq> fName field \<Longrightarrow>
   find (\<lambda>f. fName f = key) (pre @ field # post) = find (\<lambda>f. fName f = key) (pre @ post)"
  by (induction pre) auto

lemma find_self:
  "fName field \<notin> fName ` set pre \<Longrightarrow> find (\<lambda>f. fName f = fName field) (pre @ field # post) = Some field"
  by (induction pre) auto

lemma add_fields_append:
  "add_fields n (xs @ ys) = (case add_fields n xs of Inl e \<Rightarrow> Inl e | Inr n' \<Rightarrow> add_fields n' ys)"
  by (induction xs arbitrary: n) (auto split: sum.splits)

lemma add_fields_keeps_High:
  "add_fields n names = Inr n' \<Longrightarrow> High n' = High n"
  by (induction names arbitrary: n) (auto split: sum.splits dest: add_keeps_High_Low)

lemma NewNodeBuilder_zero_field:
  assumes "distinct (map fName (pre @ field # post))"
    and "fValue field = NilV \<or> IsZero (fValue field)"
    and "fExported field" and "fName field \<noteq> []"
    and "fName field = ''Extensions'' \<longrightarrow> fValue field = MapV None"
  shows "outcome (NewNodeBuilder (pre @ field # post) low) = outcome (NewNodeBuilder (pre @ post) low)"
proof -
  let ?h1 = "pre @ field # post" and ?h2 = "pre @ post"
  let ?n1 = "\<lparr>Nodes = [], High = ?h1, Low = low\<rparr>" and ?n2 = "\<lparr>Nodes = [], High = ?h2, Low = low\<rparr>"
  from assms(1) have notin_pre: "fName field \<notin> fName ` set pre"
    and notin_post: "fName field \<notin> fName ` set post" by auto
  have same: "\<forall>key \<in> set (map fName pre) \<union> set (map fName post).
      find (\<lambda>f. fName f = key) ?h1 = find (\<lambda>f. fName f = key) ?h2"
    using notin_pre notin_post by (auto intro!: find_other)
  have step1: "outcome (add_fields ?n1 (map fName pre)) = outcome (add_fields ?n2 (map fName pre))"
    using same by (intro add_fields_outcome) auto
  show ?thesis
  proof (cases "add_fields ?n1 (map fName pre)")
    case (Inl e)
    with step1 have "add_fields ?n2 (map fName pre) = Inl e"
      by (auto simp: outcome_def split: sum.splits)
    with Inl show ?thesis
      by (simp add: NewNodeBuilder_def add_fields_append outcome_def)
  next
    case (Inr m1)
    with step1 obtain m2 where m2: "add_fields ?n2 (map fName pre) = Inr m2"
      "Nodes m1 = Nodes m2" "Low m1 = Low m2"
      by (auto simp: outcome_def split: sum.splits)
    from add_fields_keeps_High [OF Inr] have h1: "High m1 = ?h1" by simp
    from add_fields_keeps_High [OF m2(1)] have h2: "High m2 = ?h2" by simp
    have "find (\<lambda>f. fName f = fName field) (High m1) = Some field"
      using h1 notin_pre by (simp add: find_self)
    from add_zero [OF this assms(2,3,4,5)] have a: "add m1 (fName field) = Inr m1" .
    have "outcome (add_fields m1 (map fName post)) = outcome (add_fields m2 (map fName post))"
      using same h1 h2 m2(2,3) by (intro add_fields_outcome) auto
    with Inr m2(1) a show ?thesis
      by (simp add: NewNodeBuilder_def add_fields_append)
  qed
qed

lemma Render_outcome:
  assumes "outcome (Inr n1) = outcome (Inr n2)"
  shows "map_sum id snd (Render srt enc n1) = map_sum id snd (Render srt enc n2)"
  using assms by (auto simp: outcome_def Render_def Let_def split: sum.splits)

lemma render_object_outcome:
  assumes "outcome (NewNodeBuilder h1 low1) = outcome (NewNodeBuilder h2 low2)"
  shows "render_object srt enc h1 low1 = render_object srt enc h2 low2"
proof (cases "NewNodeBuilder h1 low1")
  case (Inl e)
  with assms have "NewNodeBuilder h2 low2 = Inl e"
    by (auto simp: outcome_def split: sum.splits)
  with Inl show ?thesis by (simp add: render_object_def)
next
  case (Inr n1)
  with assms obtain n2 where n2: "NewNodeBuilder h2 low2 = Inr n2" "outcome (Inr n1) = outcome (Inr n2)"
    by (auto simp: outcome_def split: sum.splits)
  from Render_outcome [OF n2(2), of srt enc] Inr n2(1) show ?thesis
    by (auto simp: render_object_def split: sum.splits prod.splits)
qed

text \<open>
  Claim C9.  A field of the high object that holds the zero value of its type (\<open>false\<close>,
  the empty string, 0, a \<^verbatim>\<open>nil\<close> pointer, map or slice, a \<^verbatim>\<open>nil\<close> interface) is left
  out of the rendered mapping: the object renders as the object without the field does,
  because \<^verbatim>\<open>add\<close> returns without an entry.  (The field is an exported field of a Go
  struct: field names are distinct and not empty; the field named \<open>Extensions\<close> is a
  map.)  And \<^verbatim>\<open>AddYAMLNode\<close> returns the parent as it is for \<open>false\<close>, for the empty
  string and for \<^verbatim>\<open>nil\<close>, so a boolean \<open>false\<close> is never emitted.
\<close>

theorem zero_valued_field_omitted:
  assumes "distinct (map fName (pre @ field # post))"
    and "fValue field = NilV \<or> IsZero (fValue field)"
    and "fExported field" and "fName field \<noteq> []"
    and "fName field = ''Extensions'' \<longrightarrow> fValue field = MapV None"
  shows "render_object srt enc (pre @ field # post) low = render_object srt enc (pre @ post) low
       \<and> (\<forall>n. find (\<lambda>f. fName f = fName field) (High n) = Some field
              \<longrightarrow> add n (fName field) = Inr n)
       \<and> AddYAMLNode srt enc low parent tag key (BoolV False) = Inr parent
       \<and> AddYAMLNode srt enc low parent tag key (StringV []) = Inr parent
       \<and> AddYAMLNode srt enc low parent tag key NilV = Inr parent"
proof -
  have 1: "render_object srt enc (pre @ field # post) low = render_object srt enc (pre @ post) low"
    by (rule render_object_outcome) (rule NewNodeBuilder_zero_field [OF assms])
  have 2: "\<forall>n. find (\<lambda>f. fName f = fName field) (High n) = Some field
              \<longrightarrow> add n (fName field) = Inr n"
    using add_zero [OF _ assms(2,3,4,5)] by blast
  have 3: "AddYAMLNode srt enc low parent tag key (BoolV False) = Inr parent"
    "AddYAMLNode srt enc low parent tag key (StringV []) = Inr parent"
    "AddYAMLNode srt enc low parent tag key NilV = Inr parent"
    by (simp_all add: AddYAMLNode_def attach_def)
  from 1 2 3 show ?thesis by blast
qed

lemma attach_content:
  "tag \<noteq> [] \<Longrightarrow>
   yContent (attach parent tag r) =
     yContent parent @ (case r of Skip \<Rightarrow> [] | Emit vn \<Rightarrow> [CreateStringNode tag, vn])"
  by (simp add: attach_def set_Content_def split: rendered.splits)

lemma add_nodes_content:
  assumes "\<forall>e \<in> set xs. Tag e \<noteq> []"
  shows "add_nodes srt enc low xs m = Inr m' \<Longrightarrow>
         yContent m' = yContent m @ concat (map (emitted srt enc low) xs)"
  using assms
proof (induction xs arbitrary: m)
  case Nil
  then show ?case by simp
next
  case (Cons e xs)
  from Cons.prems(1) obtain r where r: "render srt enc low (Key e) (Value e) = Inr r"
    and rest: "add_nodes srt enc low xs (attach m (Tag e) r) = Inr m'"
    by (auto simp: AddYAMLNode_def split: sum.splits)
  from Cons.prems(2) have t: "Tag e \<noteq> []" and ts: "\<forall>e \<in> set xs. Tag e \<noteq> []" by auto
  from Cons.IH [OF rest ts] have
    "yContent m' = yContent (attach m (Tag e) r) @ concat (map (emitted srt enc low) xs)" .
  moreover from r have
    "emitted srt enc low e = (case r of Skip \<Rightarrow> [] | Emit vn \<Rightarrow> [CreateStringNode (Tag e), vn])"
    by (simp add: emitted_def split: rendered.splits)
  ultimately show ?case using t
    by (simp add: attach_content)
qed

lemma Render_content:
  assumes "Render srt enc n = Inr (n', m)"
  shows "Nodes n' = sort_Slice srt (Nodes n) \<and> Low n' = Low n"
    and "\<forall>e \<in> set (sort_Slice srt (Nodes n)). Tag e \<noteq> [] \<Longrightarrow>
         yContent m = concat (map (emitted srt enc (Low n)) (sort_Slice srt (Nodes n)))"
proof -
  from assms have n': "n' = n\<lparr>Nodes := sort_Slice srt (Nodes n)\<rparr>"
    and a: "add_nodes srt enc (Low n) (sort_Slice srt (Nodes n)) CreateEmptyMapNode = Inr m"
    by (auto simp: Render_def Let_def split: sum.splits)
  from n' show "Nodes n' = sort_Slice srt (Nodes n) \<and> Low n' = Low n" by simp
  assume "\<forall>e \<in> set (sort_Slice srt (Nodes n)). Tag e \<noteq> []"
  from add_nodes_content [OF this a]
  show "yContent m = concat (map (emitted srt enc (Low n)) (sort_Slice srt (Nodes n)))"
    by (simp add: CreateEmptyMapNode_def)
qed

lemma add_regular:
  assumes "find (\<lambda>f. fName f = key) (High n) = Some field"
    and "key \<noteq> []" and "\<not> IsLower (hd key)" and "key \<noteq> ''Extensions''"
    and "fTag field \<noteq> ''-''" and "fExported field"
    and "fValue field \<noteq> NilV" and "\<not> IsZero (fValue field)"
    and "entry_value (hd (Split (fTag field) '','')) (fValue field) \<noteq> NilV"
  shows "add n key =
           (case low_line (Low n) key of
              Inl e \<Rightarrow> Inl e
            | Inr line \<Rightarrow>
                Inr (n\<lparr>Nodes := Nodes n @
                       [\<lparr>Tag = hd (Split (fTag field) '',''), Key = key,
                         Value = entry_value (hd (Split (fTag field) '','')) (fValue field),
                         Line = (case line of None \<Rightarrow> 0 | Some l \<Rightarrow> l)\<rparr>]\<rparr>))"
  using assms by (simp add: add_def list.case_eq_if Let_def split: sum.splits)

text \<open>
  Claim C3, amended.  Take a field of the high object that yields an entry (exported, not
  the extensions, not tagged \<open>-\<close>, not zero) and any sorting function within the
  contract of \<^verbatim>\<open>sort.Slice\<close>.
  \<^item> When the field is newly added, that is the builder has no low object (a \<^verbatim>\<open>nil\<close>
    pointer) or the low counterpart is a node reference without a value node, the line
    of its entry is left at 0.
  \<^item> When the low counterpart is a node reference with a value node, the line is that
    node's line.
  \<^item> The sentinel 9999 is the line of the fields whose low counterpart is not of struct
    kind.
  \<^item> \<^verbatim>\<open>Render\<close> leaves the entries rearranged in ascending order of line and adds them
    in that order: the mapping holds, for each entry that renders, its key node and its
    value node.  So an entry at line 0 comes before every entry read from the document
    (line 1 or more), at the start of the mapping, and the entries read from the
    document follow in the order of their lines.
\<close>

theorem new_field_line_and_position:
  assumes "sort_contract srt"
    and "find (\<lambda>f. fName f = key) (High n) = Some field"
    and "key \<noteq> []" and "\<not> IsLower (hd key)" and "key \<noteq> ''Extensions''"
    and "fTag field \<noteq> ''-''" and "fExported field"
    and "fValue field \<noteq> NilV" and "\<not> IsZero (fValue field)"
    and "entry_value (hd (Split (fTag field) '','')) (fValue field) \<noteq> NilV"
  shows "(Low n = LowNilPtr \<or>
            (\<exists>lowFields exts keys. Low n = LowObj lowFields exts \<and>
                map_of lowFields key = Some (LowRef None keys))
          \<longrightarrow> (\<exists>e. add n key = Inr (n\<lparr>Nodes := Nodes n @ [e]\<rparr>) \<and> Key e = key \<and> Line e = 0))
       \<and> (\<forall>lowFields exts vn keys.
            Low n = LowObj lowFields exts \<and> map_of lowFields key = Some (LowRef (Some vn) keys)
          \<longrightarrow> (\<exists>e. add n key = Inr (n\<lparr>Nodes := Nodes n @ [e]\<rparr>) \<and> Key e = key \<and> Line e = yLine vn))
       \<and> (\<forall>lowFields exts lf.
            Low n = LowObj lowFields exts \<and> map_of lowFields key = Some lf \<and>
            (lf = LowOther \<or> lf = LowNil \<or> (\<exists>keys. lf = LowMap keys))
          \<longrightarrow> (\<exists>e. add n key = Inr (n\<lparr>Nodes := Nodes n @ [e]\<rparr>) \<and> Key e = key \<and> Line e = 9999))
       \<and> (\<forall>n' m. Render srt enc n = Inr (n', m)
          \<longrightarrow> Nodes n' = sort_Slice srt (Nodes n)
            \<and> mset (Nodes n') = mset (Nodes n)
            \<and> sorted (map Line (Nodes n'))
            \<and> ((\<forall>e \<in> set (Nodes n). Tag e \<noteq> [])
                 \<longrightarrow> yContent m = concat (map (emitted srt enc (Low n)) (Nodes n'))))"
proof -
  note A = add_regular [OF assms(2-10)]
  have 1: "Low n = LowNilPtr \<or>
            (\<exists>lowFields exts keys. Low n = LowObj lowFields exts \<and>
                map_of lowFields key = Some (LowRef None keys))
          \<longrightarrow> (\<exists>e. add n key = Inr (n\<lparr>Nodes := Nodes n @ [e]\<rparr>) \<and> Key e = key \<and> Line e = 0)"
    by (auto simp: A low_line_def)
  have 2: "\<forall>lowFields exts vn keys.
            Low n = LowObj lowFields exts \<and> map_of lowFields key = Some (LowRef (Some vn) keys)
          \<longrightarrow> (\<exists>e. add n key = Inr (n\<lparr>Nodes := Nodes n @ [e]\<rparr>) \<and> Key e = key \<and> Line e = yLine vn)"
    by (auto simp: A low_line_def)
  have 3: "\<forall>lowFields exts lf.
            Low n = LowObj lowFields exts \<and> map_of lowFields key = Some lf \<and>
            (lf = LowOther \<or> lf = LowNil \<or> (\<exists>keys. lf = LowMap keys))
          \<longrightarrow> (\<exists>e. add n key = Inr (n\<lparr>Nodes := Nodes n @ [e]\<rparr>) \<and> Key e = key \<and> Line e = 9999)"
    by (auto simp: A low_line_def bottom_line_def)
  have 4: "\<forall>n' m. Render srt enc n = Inr (n', m)
          \<longrightarrow> Nodes n' = sort_Slice srt (Nodes n)
            \<and> mset (Nodes n') = mset (Nodes n)
            \<and> sorted (map Line (Nodes n'))
            \<and> ((\<forall>e \<in> set (Nodes n). Tag e \<noteq> [])
                 \<longrightarrow> yContent m = concat (map (emitted srt enc (Low n)) (Nodes n')))"
  proof (intro allI impI)
    fix n' m
    assume r: "Render srt enc n = Inr (n', m)"
    from Render_content(1) [OF r] have n': "Nodes n' = sort_Slice srt (Nodes n)" by simp
    have ms: "mset (Nodes n') = mset (Nodes n)"
      unfolding n' by (rule sort_Slice_mset [OF assms(1)])
    have so: "sorted (map Line (Nodes n'))"
      unfolding n' by (rule sort_Slice_sorted [OF assms(1)])
    have "(\<forall>e \<in> set (Nodes n). Tag e \<noteq> [])
            \<longrightarrow> yContent m = concat (map (emitted srt enc (Low n)) (Nodes n'))"
    proof
      assume t: "\<forall>e \<in> set (Nodes n). Tag e \<noteq> []"
      from ms have "set (Nodes n') = set (Nodes n)" by (rule mset_eq_setD)
      with t n' have "\<forall>e \<in> set (sort_Slice srt (Nodes n)). Tag e \<noteq> []" by simp
      from Render_content(2) [OF r this] n'
      show "yContent m = concat (map (emitted srt enc (Low n)) (Nodes n'))" by simp
    qed
    with n' ms so show "Nodes n' = sort_Slice srt (Nodes n)
            \<and> mset (Nodes n') = mset (Nodes n)
            \<and> sorted (map Line (Nodes n'))
            \<and> ((\<forall>e \<in> set (Nodes n). Tag e \<noteq> [])
                 \<longrightarrow> yContent m = concat (map (emitted srt enc (Low n)) (Nodes n')))"
      by blast
  qed
  from 1 2 3 4 show ?thesis by blast
qed

lemma unstable_srt_contract: "sort_contract unstable_srt"
proof -
  have "mset [9, 1, 2, 3, 4, 5, 7, 8, 0, 10, 11, 12, 6::nat] = mset [0..<13]"
    by (simp add: upt_rec numeral_eq_Suc ac_simps)
  moreover have "sorted (map (\<lambda>i. thirteen_lines ! i) [9, 1, 2, 3, 4, 5, 7, 8, 0, 10, 11, 12, 6])"
    by (simp add: thirteen_lines_def)
  moreover have "length thirteen_lines = 13" by (simp add: thirteen_lines_def)
  ultimately show ?thesis
    using stable_srt_contract
    by (auto simp: sort_contract_def unstable_srt_def)
qed

lemmas eval_defs =
  NewNodeBuilder_def add_def IsLower_def Let_def str_field_def Split_def split_sep.simps
  low_line_def entry_value_def bottom_line_def scalar_def

lemma edited_nodes:
  "NewNodeBuilder edited_high edited_low =
     Inr \<lparr>Nodes = [\<lparr>Tag = ''title'', Key = ''Title'', Value = StringV ''t'', Line = 3\<rparr>,
                   \<lparr>Tag = ''summary'', Key = ''Summary'', Value = StringV ''s'', Line = 0\<rparr>],
          High = edited_high, Low = edited_low\<rparr>"
  by (simp add: edited_high_def edited_low_def eval_defs)

lemma sparse_nodes:
  "NewNodeBuilder sparse_high LowNilPtr =
     Inr \<lparr>Nodes = [\<lparr>Tag = ''title'', Key = ''Title'', Value = StringV ''t'', Line = 0\<rparr>,
                   \<lparr>Tag = ''description'', Key = ''Description'', Value = StringV ''d'', Line = 0\<rparr>],
          High = sparse_high, Low = LowNilPtr\<rparr>"
  by (simp add: sparse_high_def eval_defs)

lemma thirteen_nodes:
  "map_sum id (\<lambda>n. map (\<lambda>e. (Key e, Line e)) (Nodes n)) (NewNodeBuilder thirteen_high thirteen_low) =
     Inr [(''F0'', 0), (''F1'', 0), (''F2'', 0), (''F3'', 0), (''F4'', 0), (''F5'', 0), (''F6'', 7),
          (''F7'', 0), (''F8'', 0), (''F9'', 0), (''F10'', 0), (''F11'', 0), (''F12'', 0)]"
  by (simp add: thirteen_high_def thirteen_low_def eval_defs)

lemma thirteen_builder:
  "NewNodeBuilder thirteen_high thirteen_low =
     Inr \<lparr>Nodes =
       [\<lparr>Tag = ''f0'', Key = ''F0'', Value = StringV ''v'', Line = 0\<rparr>,
        \<lparr>Tag = ''f1'', Key = ''F1'', Value = StringV ''v'', Line = 0\<rparr>,
        \<lparr>Tag = ''f2'', Key = ''F2'', Value = StringV ''v'', Line = 0\<rparr>,
        \<lparr>Tag = ''f3'', Key = ''F3'', Value = StringV ''v'', Line = 0\<rparr>,
        \<lparr>Tag = ''f4'', Key = ''F4'', Value = StringV ''v'', Line = 0\<rparr>,
        \<lparr>Tag = ''f5'', Key = ''F5'', Value = StringV ''v'', Line = 0\<rparr>,
        \<lparr>Tag = ''f6'', Key = ''F6'', Value = StringV ''v'', Line = 7\<rparr>,
        \<lparr>Tag = ''f7'', Key = ''F7'', Value = StringV ''v'', Line = 0\<rparr>,
        \<lparr>Tag = ''f8'', Key = ''F8'', Value = StringV ''v'', Line = 0\<rparr>,
        \<lparr>Tag = ''f9'', Key = ''F9'', Value = StringV ''v'', Line = 0\<rparr>,
        \<lparr>Tag = ''f10'', Key = ''F10'', Value = StringV ''v'', Line = 0\<rparr>,
        \<lparr>Tag = ''f11'', Key = ''F11'', Value = StringV ''v'', Line = 0\<rparr>,
        \<lparr>Tag = ''f12'', Key = ''F12'', Value = StringV ''v'', Line = 0\<rparr>],
       High = thirteen_high, Low = thirteen_low\<rparr>"
  by (simp add: thirteen_high_def thirteen_low_def eval_defs)

lemmas render_defs =
  render_object_def Render_def Let_def sort_Slice_def AddYAMLNode_def attach_def
  set_Content_def CreateEmptyMapNode_def CreateStringNode_def

text \<open>
  Claim C4.  \<^verbatim>\<open>Render\<close> sorts with \<^verbatim>\<open>sort.Slice\<close>, which does not promise to keep the
  order of entries with equal lines.  With a sorting function that is within the
  contract of \<^verbatim>\<open>sort.Slice\<close>, the thirteen fields \<open>F0\<close> to \<open>F12\<close>, of which all but
  \<open>F6\<close> have line 0, are rendered in ascending order of line but with \<open>F9\<close> first and
  \<open>F0\<close> after \<open>F8\<close>: the entries with equal lines do not keep their enumeration order.
\<close>

theorem Render_tie_order_not_kept:
  "sort_contract unstable_srt
   \<and> map_sum id (\<lambda>m. map yValue (yContent m))
        (render_object unstable_srt (\<lambda>v. None) thirteen_high thirteen_low)
     = Inr [''f9'', ''v'', ''f1'', ''v'', ''f2'', ''v'', ''f3'', ''v'', ''f4'', ''v'', ''f5'', ''v'', ''f7'', ''v'', ''f8'', ''v'', ''f0'', ''v'', ''f10'', ''v'', ''f11'', ''v'', ''f12'', ''v'', ''f6'', ''v'']"
proof -
  have "map_sum id (\<lambda>m. map yValue (yContent m))
        (render_object unstable_srt (\<lambda>v. None) thirteen_high thirteen_low)
     = Inr [''f9'', ''v'', ''f1'', ''v'', ''f2'', ''v'', ''f3'', ''v'', ''f4'', ''v'', ''f5'', ''v'', ''f7'', ''v'', ''f8'', ''v'', ''f0'', ''v'', ''f10'', ''v'', ''f11'', ''v'', ''f12'', ''v'', ''f6'', ''v'']"
    by (simp add: render_object_def thirteen_builder)
       (simp add: render_defs unstable_srt_def thirteen_lines_def)
  with unstable_srt_contract show ?thesis by simp
qed

text \<open>
  Claim C3 as stated fails: the summary is newly added (its low counterpart has no value
  node), its entry gets line 0 and not the sentinel, and it is rendered before the title
  that was read from line 3, not at the end of the mapping.
\<close>

theorem new_field_line_is_zero:
  "map_sum id (\<lambda>n. map (\<lambda>e. (Key e, Line e)) (Nodes n)) (NewNodeBuilder edited_high edited_low)
     = Inr [(''Title'', 3), (''Summary'', 0)]
   \<and> map_sum id (\<lambda>m. map yValue (yContent m))
        (render_object stable_srt (\<lambda>v. None) edited_high edited_low)
     = Inr [''summary'', ''s'', ''title'', ''t'']"
proof -
  have s: "stable_srt [3, 0] = [1, 0]"
    by (simp add: stable_srt_def upt_rec numeral_eq_Suc)
  have "map_sum id (\<lambda>m. map yValue (yContent m))
        (render_object stable_srt (\<lambda>v. None) edited_high edited_low)
     = Inr [''summary'', ''s'', ''title'', ''t'']"
    by (simp add: render_object_def edited_nodes)
       (simp add: render_defs s)
  then show ?thesis by (simp add: edited_nodes)
qed

text \<open>An instance: the summary set after parsing gets line 0.\<close>

theorem new_field_line_and_position_witness:
  "sort_contract stable_srt
   \<and> (\<exists>e. add \<lparr>Nodes = [\<lparr>Tag = ''title'', Key = ''Title'', Value = StringV ''t'', Line = 3\<rparr>],
              High = edited_high, Low = edited_low\<rparr> ''Summary''
          = Inr \<lparr>Nodes = [\<lparr>Tag = ''title'', Key = ''Title'', Value = StringV ''t'', Line = 3\<rparr>, e],
                 High = edited_high, Low = edited_low\<rparr>
        \<and> Key e = ''Summary'' \<and> Line e = 0)"
proof -
  let ?n = "\<lparr>Nodes = [\<lparr>Tag = ''title'', Key = ''Title'', Value = StringV ''t'', Line = 3\<rparr>],
              High = edited_high, Low = edited_low\<rparr>"
  let ?field = "str_field ''Summary'' ''summary,omitempty'' ''s''"
  have h: "find (\<lambda>f. fName f = ''Summary'') (High ?n) = Some ?field"
    "''Summary'' \<noteq> []" "\<not> IsLower (hd ''Summary'')" "''Summary'' \<noteq> ''Extensions''"
    "fTag ?field \<noteq> ''-''" "fExported ?field" "fValue ?field \<noteq> NilV" "\<not> IsZero (fValue ?field)"
    "entry_value (hd (Split (fTag ?field) '','')) (fValue ?field) \<noteq> NilV"
    by (simp_all add: edited_high_def str_field_def IsLower_def entry_value_def)
  have l: "\<exists>lowFields exts keys. Low ?n = LowObj lowFields exts \<and>
                map_of lowFields ''Summary'' = Some (LowRef None keys)"
    by (simp add: edited_low_def)
  from new_field_line_and_position [OF stable_srt_contract h, of "\<lambda>v. None"] l
  have "\<exists>e. add ?n ''Summary'' = Inr (?n\<lparr>Nodes := Nodes ?n @ [e]\<rparr>) \<and> Key e = ''Summary'' \<and> Line e = 0"
    by blast
  with stable_srt_contract show ?thesis by simp
qed

text \<open>
  An instance: of a title, a \<open>false\<close> flag, a zero count, an empty summary and a
  description, the title and the description are rendered.
\<close>

theorem zero_valued_field_omitted_witness:
  "render_object stable_srt (\<lambda>v. None) sparse_high LowNilPtr
     = render_object stable_srt (\<lambda>v. None)
         [str_field ''Title'' ''title'' ''t'',
          \<lparr>fName = ''MaxItems'', fTag = ''maxItems'', fValue = IntV 0, fExported = True\<rparr>,
          str_field ''Summary'' ''summary'' [],
          str_field ''Description'' ''description'' ''d''] LowNilPtr
   \<and> map_sum id (\<lambda>m. map yValue (yContent m))
        (render_object stable_srt (\<lambda>v. None) sparse_high LowNilPtr)
     = Inr [''title'', ''t'', ''description'', ''d'']"
proof -
  let ?field = "\<lparr>fName = ''Deprecated'', fTag = ''deprecated'', fValue = BoolV False, fExported = True\<rparr>"
  let ?pre = "[str_field ''Title'' ''title'' ''t'']"
  let ?post = "[\<lparr>fName = ''MaxItems'', fTag = ''maxItems'', fValue = IntV 0, fExported = True\<rparr>,
          str_field ''Summary'' ''summary'' [],
          str_field ''Description'' ''description'' ''d'']"
  have h: "distinct (map fName (?pre @ ?field # ?post))"
    "fValue ?field = NilV \<or> IsZero (fValue ?field)" "fExported ?field" "fName ?field \<noteq> []"
    "fName ?field = ''Extensions'' \<longrightarrow> fValue ?field = MapV None"
    by (simp_all add: str_field_def)
  have sp: "sparse_high = ?pre @ ?field # ?post" by (simp add: sparse_high_def)
  from zero_valued_field_omitted [OF h, of stable_srt "\<lambda>v. None" LowNilPtr]
  have 1: "render_object stable_srt (\<lambda>v. None) sparse_high LowNilPtr
     = render_object stable_srt (\<lambda>v. None) (?pre @ ?post) LowNilPtr"
    unfolding sp by blast
  have s: "stable_srt [0, 0] = [0, 1]"
    by (simp add: stable_srt_def upt_rec numeral_eq_Suc)
  have 2: "map_sum id (\<lambda>m. map yValue (yContent m))
        (render_object stable_srt (\<lambda>v. None) sparse_high LowNilPtr)
     = Inr [''title'', ''t'', ''description'', ''d'']"
    by (simp add: render_object_def sparse_nodes)
       (simp add: render_defs s)
  from 1 2 show ?thesis by simp
qed

section \<open>Properties of the parallel translate\<close>

lemma translated_values_Suc:
  "translated_values translate inputs (Suc k) =
     translated_values translate inputs k @
       (case translate k (inputs ! k) of Translated u \<Rightarrow> [u] | _ \<Rightarrow> [])"
  by (simp add: translated_values_def)

lemma run_inv_initial: "run_inv translate inputs initial_state"
  by (simp add: run_inv_def initial_state_def translated_values_def)

lemma run_inv_finish:
  assumes "run_inv translate inputs st" and "returned st = None"
  shows "run_inv translate inputs (finish translate inputs i st)"
proof (cases "i < length inputs \<and> i \<notin> set (finished st)")
  case False
  with assms show ?thesis by (auto simp: finish_def)
next
  case True
  from assms have noerr: "\<forall>j \<in> set (finished st). \<forall>e. translate j (inputs ! j) \<noteq> TranslateErr e"
    and noeof: "\<forall>j \<in> set (finished st). translate j (inputs ! j) \<noteq> EndOfInput"
    by (auto simp: run_inv_def)
  show ?thesis
  proof (cases "translate i (inputs ! i)")
    case (Translated u)
    with True assms noerr noeof show ?thesis
      by (auto simp: finish_def run_inv_def Let_def)
  next
    case Continue
    with True assms noerr noeof show ?thesis
      by (auto simp: finish_def run_inv_def Let_def)
  next
    case EndOfInput
    with True assms noerr noeof show ?thesis
      by (auto simp: finish_def run_inv_def Let_def)
  next
    case (TranslateErr e)
    with True assms noerr noeof show ?thesis
      by (auto simp: finish_def run_inv_def Let_def)
  qed
qed

lemma run_inv_deliver:
  assumes "run_inv translate inputs st" and "returned st = None"
  shows "run_inv translate inputs (deliver translate consume inputs st)"
proof (cases "delivered st < length inputs \<and> delivered st \<in> set (finished st)")
  case False
  with assms show ?thesis by (auto simp: deliver_def run_inv_def)
next
  case True
  from assms have noerr: "\<forall>j \<in> set (finished st). \<forall>e. translate j (inputs ! j) \<noteq> TranslateErr e"
    and noeof: "\<forall>j \<in> set (finished st). translate j (inputs ! j) \<noteq> EndOfInput"
    by (auto simp: run_inv_def)
  have less: "\<And>i. i < Suc (delivered st) \<Longrightarrow> i \<in> set (finished st)"
    using True assms(1) by (auto simp: run_inv_def less_Suc_eq)
  from True have le: "Suc (delivered st) \<le> length inputs" by simp
  show ?thesis
  proof (cases "translate (delivered st) (inputs ! delivered st)")
    case (Translated u)
    with True assms noerr noeof less le show ?thesis
      by (cases "consume (consumed st) u")
         (auto simp: deliver_def run_inv_def Let_def translated_values_Suc)
  next
    case Continue
    with True assms noerr noeof less le show ?thesis
      by (auto simp: deliver_def run_inv_def Let_def translated_values_Suc)
  next
    case EndOfInput
    with True assms show ?thesis by (auto simp: deliver_def)
  next
    case (TranslateErr e)
    with True assms show ?thesis by (auto simp: deliver_def)
  qed
qed

lemma run_inv_step:
  "run_inv translate inputs st \<Longrightarrow> run_inv translate inputs (step translate consume inputs st ev)"
  by (cases ev) (auto simp: step_def intro: run_inv_finish run_inv_deliver)

lemma run_inv_foldl:
  "run_inv translate inputs st \<Longrightarrow>
   run_inv translate inputs (foldl (step translate consume inputs) st sched)"
  by (induction sched arbitrary: st) (auto intro: run_inv_step)

lemma run_inv_run:
  "run_inv translate inputs (TranslateSliceParallel translate consume inputs sched)"
  unfolding TranslateSliceParallel_def by (intro run_inv_foldl run_inv_initial)

text \<open>After the return nothing changes.\<close>

lemma returned_frozen:
  "returned st \<noteq> None \<Longrightarrow> foldl (step translate consume inputs) st sched = st"
  by (induction sched) (auto simp: step_def)

lemma run_append:
  "TranslateSliceParallel translate consume inputs (sched @ sched') =
     foldl (step translate consume inputs)
       (TranslateSliceParallel translate consume inputs sched) sched'"
  by (simp add: TranslateSliceParallel_def)

lemma happy_inv_step:
  assumes "happy translate consume inputs" and "happy_inv inputs st"
    and "run_inv translate inputs st"
  shows "happy_inv inputs (step translate consume inputs st ev)"
proof (cases "returned st = None")
  case False
  with assms(2) show ?thesis by (simp add: step_def)
next
  case True
  show ?thesis
  proof (cases ev)
    case (Finish i)
    show ?thesis
    proof (cases "i < length inputs")
      case False
      with True Finish show ?thesis by (simp add: step_def finish_def happy_inv_def)
    next
      case l: True
      with assms(1) obtain u where "translate i (inputs ! i) = Translated u"
        by (auto simp: happy_def)
      with True Finish show ?thesis
        by (simp add: step_def finish_def happy_inv_def Let_def)
    qed
  next
    case Deliver
    show ?thesis
    proof (cases "delivered st < length inputs")
      case False
      with assms(3) have "delivered st = length inputs" by (simp add: run_inv_def)
      with True Deliver show ?thesis by (simp add: step_def deliver_def happy_inv_def)
    next
      case l: True
      with assms(1) obtain u where "translate (delivered st) (inputs ! delivered st) = Translated u"
        by (auto simp: happy_def)
      moreover from assms(1) have "consume (consumed st) u = Ok" by (simp add: happy_def)
      ultimately show ?thesis using True Deliver l
        by (simp add: step_def deliver_def happy_inv_def Let_def)
    qed
  qed
qed

lemma happy_inv_foldl:
  assumes "happy translate consume inputs"
  shows "happy_inv inputs st \<Longrightarrow> run_inv translate inputs st \<Longrightarrow>
         happy_inv inputs (foldl (step translate consume inputs) st sched)"
proof (induction sched arbitrary: st)
  case Nil
  then show ?case by simp
next
  case (Cons ev sched)
  from happy_inv_step [OF assms Cons.prems] run_inv_step [OF Cons.prems(2)]
  show ?case by (auto intro: Cons.IH)
qed

lemma happy_inv_run:
  assumes "happy translate consume inputs"
  shows "happy_inv inputs (TranslateSliceParallel translate consume inputs sched)"
  unfolding TranslateSliceParallel_def
  by (intro happy_inv_foldl [OF assms] run_inv_initial) (simp add: happy_inv_def initial_state_def)

lemma finish_all:
  assumes "happy translate consume inputs"
  shows "returned st = None \<Longrightarrow> distinct p \<Longrightarrow> \<forall>i \<in> set p. i < length inputs \<and> i \<notin> set (finished st) \<Longrightarrow>
         foldl (step translate consume inputs) st (map Finish p) = st\<lparr>finished := finished st @ p\<rparr>"
proof (induction p arbitrary: st)
  case Nil
  then show ?case by simp
next
  case (Cons i p)
  from Cons.prems have i: "i < length inputs" "i \<notin> set (finished st)" by auto
  with assms obtain u where u: "translate i (inputs ! i) = Translated u"
    by (auto simp: happy_def)
  with i Cons.prems(1) have s: "step translate consume inputs st (Finish i) = st\<lparr>finished := finished st @ [i]\<rparr>"
    by (simp add: step_def finish_def Let_def)
  have "foldl (step translate consume inputs) (st\<lparr>finished := finished st @ [i]\<rparr>) (map Finish p)
          = (st\<lparr>finished := finished st @ [i]\<rparr>)\<lparr>finished := finished (st\<lparr>finished := finished st @ [i]\<rparr>) @ p\<rparr>"
    using Cons.prems by (intro Cons.IH) auto
  with s show ?case by simp
qed

lemma deliver_all:
  assumes "happy translate consume inputs"
  shows "returned st = None \<Longrightarrow> {0..<length inputs} \<subseteq> set (finished st) \<Longrightarrow>
         delivered st + k = length inputs \<Longrightarrow>
         returned (foldl (step translate consume inputs) st (replicate (Suc k) Deliver)) = Some None"
proof (induction k arbitrary: st)
  case 0
  then show ?case by (simp add: step_def deliver_def)
next
  case (Suc k)
  then have lt: "delivered st < length inputs" and fin: "delivered st \<in> set (finished st)" by auto
  with assms obtain u where u: "translate (delivered st) (inputs ! delivered st) = Translated u"
    by (auto simp: happy_def)
  from assms have ok: "consume (consumed st) u = Ok" by (simp add: happy_def)
  let ?st = "st\<lparr>delivered := delivered st + 1, consumed := consumed st @ [u]\<rparr>"
  from lt fin u ok Suc.prems(1) have s: "step translate consume inputs st Deliver = ?st"
    by (simp add: step_def deliver_def Let_def)
  have "returned (foldl (step translate consume inputs) ?st (replicate (Suc k) Deliver)) = Some None"
    using Suc.prems by (intro Suc.IH) auto
  with s show ?case by simp
qed

lemma happy_returns:
  assumes "happy translate consume inputs" and "mset p = mset [0..<length inputs]"
  shows "returned (TranslateSliceParallel translate consume inputs
                     (map Finish p @ replicate (Suc (length inputs)) Deliver)) = Some None"
proof -
  from assms(2) have d: "distinct p" by (metis distinct_upt mset_eq_imp_distinct_iff)
  from assms(2) have s: "set p = {0..<length inputs}" by (metis atLeastLessThan_upt mset_eq_setD)
  let ?init = "initial_state :: 'b run_state"
  have a: "returned ?init = None" by (simp add: initial_state_def)
  have b: "\<forall>i \<in> set p. i < length inputs \<and> i \<notin> set (finished ?init)"
    using s by (simp add: initial_state_def)
  have 1: "foldl (step translate consume inputs) ?init (map Finish p)
          = ?init\<lparr>finished := finished ?init @ p\<rparr>"
    using finish_all [OF assms(1) a d b] .
  let ?st = "?init\<lparr>finished := finished ?init @ p\<rparr>"
  have c: "returned ?st = None" by (simp add: initial_state_def)
  have e: "{0..<length inputs} \<subseteq> set (finished ?st)" using s by (simp add: initial_state_def)
  have f: "delivered ?st + length inputs = length inputs" by (simp add: initial_state_def)
  have 2: "returned (foldl (step translate consume inputs) ?st
                    (replicate (Suc (length inputs)) Deliver)) = Some None"
    using deliver_all [OF assms(1) c e f] .
  from 1 2 show ?thesis by (simp add: TranslateSliceParallel_def)
qed

lemma translated_values_happy:
  assumes "\<forall>i < k. \<exists>u. translate i (inputs ! i) = Translated u"
  shows "map Translated (translated_values translate inputs k) = map (\<lambda>i. translate i (inputs ! i)) [0..<k]"
  using assms
proof (induction k)
  case 0
  then show ?case by (simp add: translated_values_def)
next
  case (Suc k)
  then obtain u where "translate k (inputs ! k) = Translated u" by auto
  with Suc show ?case by (simp add: translated_values_Suc)
qed

lemma translated_values_all_err:
  assumes "\<forall>i < k. \<exists>e. translate i (inputs ! i) = TranslateErr e"
  shows "translated_values translate inputs k = []"
  using assms
proof (induction k)
  case 0
  then show ?case by (simp add: translated_values_def)
next
  case (Suc k)
  then obtain e where "translate k (inputs ! k) = TranslateErr e" by auto
  with Suc show ?case by (simp add: translated_values_Suc)
qed

text \<open>
  Claim C5 (on the model made from the spec).  Under every schedule, that is whatever
  the order in which the translate calls return, the values handed to \<open>consume\<close> are
  the values of the inputs dealt with so far, in index order.  On the happy path (every
  translate call gives a value, \<open>consume\<close> always accepts), when the function has
  returned it has returned success, the consumed sequence is \<open>map translate inputs\<close>,
  and every translate call has returned exactly once; and the function does return, for
  every order of completion, once the consumer has taken its turns.
\<close>

theorem TranslateSliceParallel_input_order:
  fixes translate :: "nat \<Rightarrow> 't \<Rightarrow> 'u translated"
    and consume :: "'u list \<Rightarrow> 'u \<Rightarrow> consume_result"
    and inputs :: "'t list" and sched :: "event list"
  defines "st \<equiv> TranslateSliceParallel translate consume inputs sched"
  shows "consumed st = translated_values translate inputs (delivered st)
       \<and> delivered st \<le> length inputs
       \<and> (happy translate consume inputs \<longrightarrow>
            (returned st \<noteq> None \<longrightarrow>
               returned st = Some None
             \<and> map Translated (consumed st) = map (\<lambda>i. translate i (inputs ! i)) [0..<length inputs]
             \<and> mset (finished st) = mset [0..<length inputs])
          \<and> (\<forall>p. mset p = mset [0..<length inputs] \<longrightarrow>
                returned (TranslateSliceParallel translate consume inputs
                            (map Finish p @ replicate (Suc (length inputs)) Deliver)) = Some None))"
proof -
  have inv: "run_inv translate inputs st"
    unfolding st_def by (rule run_inv_run)
  then have 1: "consumed st = translated_values translate inputs (delivered st)"
    and 2: "delivered st \<le> length inputs"
    by (simp_all add: run_inv_def)
  have 3: "happy translate consume inputs \<longrightarrow>
            (returned st \<noteq> None \<longrightarrow>
               returned st = Some None
             \<and> map Translated (consumed st) = map (\<lambda>i. translate i (inputs ! i)) [0..<length inputs]
             \<and> mset (finished st) = mset [0..<length inputs])"
  proof (intro impI)
    assume h: "happy translate consume inputs" and r: "returned st \<noteq> None"
    from happy_inv_run [OF h, of sched] r
    have r': "returned st = Some None" and d: "delivered st = length inputs"
      by (simp_all add: happy_inv_def st_def)
    from h have "\<forall>i < length inputs. \<exists>u. translate i (inputs ! i) = Translated u"
      by (simp add: happy_def)
    from translated_values_happy [of "length inputs" translate inputs, OF this] 1 d
    have c: "map Translated (consumed st) = map (\<lambda>i. translate i (inputs ! i)) [0..<length inputs]"
      by simp
    from inv d have "set (finished st) = {0..<length inputs}" and "distinct (finished st)"
      by (auto simp: run_inv_def)
    then have "mset (finished st) = mset [0..<length inputs]"
      by (metis atLeastLessThan_upt distinct_upt set_eq_iff_mset_eq_distinct)
    with r' c show "returned st = Some None
             \<and> map Translated (consumed st) = map (\<lambda>i. translate i (inputs ! i)) [0..<length inputs]
             \<and> mset (finished st) = mset [0..<length inputs]" by simp
  qed
  from 1 2 3 happy_returns [of translate consume inputs] show ?thesis by blast
qed

text \<open>
  Claim C6 (on the model made from the spec).  Under every schedule: when a translate
  call has returned an error, the function has returned that error, the first one, since
  nothing happens after the return: no further event changes the state, so \<open>consume\<close>
  is not invoked again.  When every translate call errs, \<open>consume\<close> is never invoked.
  And a translate call that returns an error while the function is running makes it
  return that error.
\<close>

theorem TranslateSliceParallel_first_error:
  fixes translate :: "nat \<Rightarrow> 't \<Rightarrow> 'u translated"
    and consume :: "'u list \<Rightarrow> 'u \<Rightarrow> consume_result"
    and inputs :: "'t list" and sched :: "event list"
  defines "st \<equiv> TranslateSliceParallel translate consume inputs sched"
  shows "(\<forall>i e. i \<in> set (finished st) \<and> translate i (inputs ! i) = TranslateErr e
            \<longrightarrow> returned st = Some (Some e))
       \<and> (returned st \<noteq> None \<longrightarrow>
            (\<forall>sched'. TranslateSliceParallel translate consume inputs (sched @ sched') = st))
       \<and> ((\<forall>i < length inputs. \<exists>e. translate i (inputs ! i) = TranslateErr e)
            \<longrightarrow> consumed st = [])
       \<and> (\<forall>i e. returned st = None \<and> i < length inputs \<and> i \<notin> set (finished st)
                 \<and> translate i (inputs ! i) = TranslateErr e
            \<longrightarrow> returned (TranslateSliceParallel translate consume inputs (sched @ [Finish i]))
                  = Some (Some e))"
proof -
  have inv: "run_inv translate inputs st"
    unfolding st_def by (rule run_inv_run)
  then have 1: "\<forall>i e. i \<in> set (finished st) \<and> translate i (inputs ! i) = TranslateErr e
            \<longrightarrow> returned st = Some (Some e)"
    by (auto simp: run_inv_def)
  have 2: "returned st \<noteq> None \<longrightarrow>
            (\<forall>sched'. TranslateSliceParallel translate consume inputs (sched @ sched') = st)"
    by (auto simp: run_append st_def returned_frozen)
  have 3: "(\<forall>i < length inputs. \<exists>e. translate i (inputs ! i) = TranslateErr e)
            \<longrightarrow> consumed st = []"
  proof
    assume a: "\<forall>i < length inputs. \<exists>e. translate i (inputs ! i) = TranslateErr e"
    from inv have "delivered st \<le> length inputs"
      and c: "consumed st = translated_values translate inputs (delivered st)"
      by (simp_all add: run_inv_def)
    with a have "\<forall>i < delivered st. \<exists>e. translate i (inputs ! i) = TranslateErr e" by auto
    from translated_values_all_err [of "delivered st" translate inputs, OF this] c
    show "consumed st = []" by simp
  qed
  have 4: "\<forall>i e. returned st = None \<and> i < length inputs \<and> i \<notin> set (finished st)
                 \<and> translate i (inputs ! i) = TranslateErr e
            \<longrightarrow> returned (TranslateSliceParallel translate consume inputs (sched @ [Finish i]))
                  = Some (Some e)"
    by (auto simp: run_append st_def [symmetric] step_def finish_def Let_def)
  from 1 2 3 4 show ?thesis by blast
qed

lemma digits_small: "n < 10 \<Longrightarrow> digits n = [char_of (48 + n)]"
  by (subst digits.simps) simp

lemma happy_test: "happy happy_translateFunc counting_resultFunc inputs"
  by (simp add: happy_def happy_translateFunc_def counting_resultFunc_def)

lemmas run_defs =
  TranslateSliceParallel_def initial_state_def step_def finish_def deliver_def Let_def

text \<open>
  An instance with the functions of the test's happy path: three inputs, the translate
  calls returning in the order 2, 0, 1.
\<close>

theorem TranslateSliceParallel_input_order_witness:
  "returned (TranslateSliceParallel happy_translateFunc counting_resultFunc [0, 1, 2]
               [Finish 2, Finish 0, Deliver, Finish 1, Deliver, Deliver, Deliver]) = Some None
   \<and> consumed (TranslateSliceParallel happy_translateFunc counting_resultFunc [0, 1, 2]
               [Finish 2, Finish 0, Deliver, Finish 1, Deliver, Deliver, Deliver])
     = [''foobar 0'', ''foobar 1'', ''foobar 2'']"
proof -
  let ?sched = "[Finish 2, Finish 0, Deliver, Finish 1, Deliver, Deliver, Deliver]"
  let ?st = "TranslateSliceParallel happy_translateFunc counting_resultFunc [0, 1, 2::int] ?sched"
  have r: "returned ?st \<noteq> None"
    by (simp add: run_defs happy_translateFunc_def counting_resultFunc_def)
  from TranslateSliceParallel_input_order
         [of happy_translateFunc counting_resultFunc "[0, 1, 2]" ?sched] happy_test r
  have 1: "returned ?st = Some None"
    and 2: "map Translated (consumed ?st) =
              map (\<lambda>i. happy_translateFunc i ([0, 1, 2] ! i)) [0..<length [0, 1, 2::int]]"
    by blast+
  have idx: "[0..<length [0, 1, 2::int]] = [0, 1, 2]"
    by (simp add: upt_rec numeral_eq_Suc)
  have fmt: "FormatInt 0 = ''0''" "FormatInt 1 = ''1''" "FormatInt 2 = ''2''"
    by code_simp+
  have "map (\<lambda>i. happy_translateFunc i ([0, 1, 2] ! i)) [0..<length [0, 1, 2::int]]
          = map Translated [''foobar 0'', ''foobar 1'', ''foobar 2'']"
    unfolding idx by (simp add: happy_translateFunc_def fmt)
  with 2 have "map Translated (consumed ?st) = map Translated [''foobar 0'', ''foobar 1'', ''foobar 2'']"
    by simp
  moreover have "inj (Translated :: string \<Rightarrow> string translated)"
    by (simp add: inj_on_def)
  ultimately have "consumed ?st = [''foobar 0'', ''foobar 1'', ''foobar 2'']"
    by (simp only: inj_map_eq_map)
  with 1 show ?thesis by simp
qed

text \<open>An instance with the functions of the test's "Error in translate".\<close>

theorem TranslateSliceParallel_first_error_witness:
  "returned (TranslateSliceParallel failing_translateFunc counting_resultFunc [0, 1, 2]
               [Deliver, Finish 1, Deliver, Finish 0]) = Some (Some (ErrorMsg ''Foobar''))
   \<and> consumed (TranslateSliceParallel failing_translateFunc counting_resultFunc [0, 1, 2]
               [Deliver, Finish 1, Deliver, Finish 0]) = []"
proof -
  let ?sched = "[Deliver, Finish 1, Deliver, Finish 0]"
  let ?st = "TranslateSliceParallel failing_translateFunc counting_resultFunc [0, 1, 2::int] ?sched"
  have f: "1 \<in> set (finished ?st)"
    by (simp add: run_defs failing_translateFunc_def)
  have e: "failing_translateFunc 1 ([0, 1, 2] ! 1) = TranslateErr (ErrorMsg ''Foobar'')"
    by (simp add: failing_translateFunc_def)
  have a: "\<forall>i < length [0, 1, 2::int]. \<exists>e. failing_translateFunc i ([0, 1, 2] ! i) = TranslateErr e"
    by (simp add: failing_translateFunc_def)
  from TranslateSliceParallel_first_error
         [of failing_translateFunc counting_resultFunc "[0, 1, 2]" ?sched] f e a
  show ?thesis by blast
qed

end
